theory Spec2Isabelle
  imports Main
begin

section \<open>Values exchanged with the JavaScript runtime and libraries\<close>

text \<open>
  The chat backend is TypeScript. Values whose shape the code inspects at run time
  (request bodies, completion contents, tool arguments, frame payloads) are modelled
  by one datatype of JavaScript values. Numbers are integers here: the code only
  tests them for truthiness.
\<close>

datatype json =
    JUndefined
  | JNull
  | JBool bool
  | JNum int
  | JStr string
  | JArr "json list"
  | JObj "(string \<times> json) list"

text \<open>JavaScript truthiness, as used by \<^verbatim>\<open>if (v)\<close>, \<^verbatim>\<open>v || d\<close> and \<^verbatim>\<open>.filter(s => s)\<close>.\<close>

fun truthy :: "json \<Rightarrow> bool" where
  "truthy JUndefined = False"
| "truthy JNull = False"
| "truthy (JBool b) = b"
| "truthy (JNum n) = (n \<noteq> 0)"
| "truthy (JStr s) = (s \<noteq> [])"
| "truthy (JArr xs) = True"
| "truthy (JObj fs) = True"

text \<open>Optional property access \<^verbatim>\<open>v?.k\<close> for the keys the code reads (text, type, message, sessionId).\<close>

fun get_prop :: "json \<Rightarrow> string \<Rightarrow> json" where
  "get_prop (JObj fs) k = (case map_of fs k of Some v \<Rightarrow> v | None \<Rightarrow> JUndefined)"
| "get_prop v k = JUndefined"

text \<open>
  The runtime's own functions are parameters: \<^verbatim>\<open>JSON.parse\<close> (\<open>Inl\<close> is the message of
  the SyntaxError it throws), \<^verbatim>\<open>JSON.stringify\<close> and \<^verbatim>\<open>String\<close> on values that are
  not already strings.
\<close>

record builtins =
  parse :: "string \<Rightarrow> string + json"
  stringify :: "json \<Rightarrow> string"
  toString :: "json \<Rightarrow> string"

definition js_stringify :: "builtins \<Rightarrow> json \<Rightarrow> json" where
  "js_stringify b v = (if v = JUndefined then JUndefined else JStr (stringify b v))"

definition js_String :: "builtins \<Rightarrow> json \<Rightarrow> string" where
  "js_String b v = (case v of JStr s \<Rightarrow> s | _ \<Rightarrow> toString b v)"

fun join :: "string \<Rightarrow> string list \<Rightarrow> string" where
  "join sep [] = []"
| "join sep [x] = x"
| "join sep (x # y # ys) = x @ sep @ join sep (y # ys)"

text \<open>What a \<^verbatim>\<open>throw\<close> carries: an \<^verbatim>\<open>Error\<close> with its message, or any other value.\<close>

datatype thrown = Error string | NonError

section \<open>types/chat.ts: messages and the request schema\<close>

datatype role = User | Assistant | System

text \<open>\<^verbatim>\<open>ChatMessage\<close>. The optional timestamp (\<^verbatim>\<open>new Date()\<close>) is never read and is left out.\<close>

record chat_message =
  role :: role
  content :: string

record chat_request =
  message :: string
  sessionId :: "string option"

text \<open>A zod issue: its path, and for \<^verbatim>\<open>min(1, ...)\<close> the message the schema gives.\<close>

datatype issue = InvalidType "string list" | TooSmall "string list" string

definition message_issues :: "json \<Rightarrow> issue list" where
  "message_issues v =
     (case v of
        JStr s \<Rightarrow> (if length s < 1 then [TooSmall [''message''] ''Message cannot be empty''] else [])
      | _ \<Rightarrow> [InvalidType [''message'']])"

definition sessionId_issues :: "json \<Rightarrow> issue list" where
  "sessionId_issues v =
     (case v of
        JUndefined \<Rightarrow> []
      | JStr s \<Rightarrow> []
      | _ \<Rightarrow> [InvalidType [''sessionId'']])"

text \<open>
  \<^verbatim>\<open>ChatRequestSchema.safeParse\<close>: \<^verbatim>\<open>z.object({ message: z.string().min(1, 'Message cannot
  be empty'), sessionId: z.string().optional() })\<close>.
\<close>

definition safeParse :: "json \<Rightarrow> issue list + chat_request" where
  "safeParse body =
     (case body of
        JObj fs \<Rightarrow>
          (let issues = message_issues (get_prop body ''message'') @ sessionId_issues (get_prop body ''sessionId'')
           in if issues = [] then
                Inr \<lparr> message = (case get_prop body ''message'' of JStr s \<Rightarrow> s | _ \<Rightarrow> []),
                      sessionId = (case get_prop body ''sessionId'' of JStr s \<Rightarrow> Some s | _ \<Rightarrow> None) \<rparr>
              else Inl issues)
      | _ \<Rightarrow> Inl [InvalidType []])"

section \<open>utils/stream.ts: the server-sent event channel\<close>

text \<open>
  One frame is what \<^verbatim>\<open>sendSSE\<close> writes: the event name and the data (a string as it is,
  an object to be serialised). The reply also holds the headers set so far, the
  plain HTTP response if one was sent (status code and body), and whether the raw
  stream was ended.
\<close>

record frame =
  event :: string
  data :: json

record error_body =
  error :: string
  details :: "issue list"

record reply =
  headers :: "(string \<times> string) list"
  sent :: "(nat \<times> error_body) option"
  wire :: "frame list"
  ended :: bool

definition sendSSE :: "string \<Rightarrow> json \<Rightarrow> reply \<Rightarrow> reply" where
  "sendSSE ev d r = r\<lparr> wire := wire r @ [\<lparr> event = ev, data = d \<rparr>] \<rparr>"

definition sendToken :: "string \<Rightarrow> reply \<Rightarrow> reply" where
  "sendToken token r = sendSSE ''token'' (JStr token) r"

definition sendToolCall :: "string \<Rightarrow> json \<Rightarrow> reply \<Rightarrow> reply" where
  "sendToolCall toolName input r =
     sendSSE ''tool_call'' (JObj [(''tool'', JStr toolName), (''input'', input)]) r"

definition sendToolResult :: "string \<Rightarrow> reply \<Rightarrow> reply" where
  "sendToolResult result r = sendSSE ''tool_result'' (JStr result) r"

definition sendError :: "string \<Rightarrow> reply \<Rightarrow> reply" where
  "sendError e r = sendSSE ''error'' (JObj [(''error'', JStr e)]) r"

definition sendDone :: "reply \<Rightarrow> reply" where
  "sendDone r = (sendSSE ''done'' (JObj []) r)\<lparr> ended := True \<rparr>"

section \<open>models/memory.ts: the conversation store\<close>

type_synonym sessions = "string \<rightharpoonup> chat_message list"

definition getHistory :: "sessions \<Rightarrow> string \<Rightarrow> chat_message list" where
  "getHistory m sid = (case m sid of Some h \<Rightarrow> h | None \<Rightarrow> [])"

definition addMessage :: "string \<Rightarrow> chat_message \<Rightarrow> sessions \<Rightarrow> sessions" where
  "addMessage sid msg m = m(sid \<mapsto> getHistory m sid @ [msg])"

text \<open>A tool call as the completion reports it: the tool's name and the raw arguments.\<close>

record tool_call =
  name :: string
  args :: json

text \<open>LangChain messages of the working sequence.\<close>

datatype base_message =
    HumanMessage string
  | AIMessage string "tool_call list option"
  | SystemMessage string

fun message_content :: "base_message \<Rightarrow> string" where
  "message_content (HumanMessage c) = c"
| "message_content (AIMessage c tcs) = c"
| "message_content (SystemMessage c) = c"

definition toLangChain :: "chat_message \<Rightarrow> base_message" where
  "toLangChain msg =
     (if role msg = User then HumanMessage (content msg)
      else if role msg = Assistant then AIMessage (content msg) None
      else SystemMessage (content msg))"

definition getLangChainMessages :: "sessions \<Rightarrow> string \<Rightarrow> base_message list" where
  "getLangChainMessages m sid = map toLangChain (getHistory m sid)"

section \<open>The callbacks handed to an executor\<close>

text \<open>
  What a tool-start handler receives as its first argument: an object with a
  \<^verbatim>\<open>name\<close> property, a plain string, or anything else (\<^verbatim>\<open>undefined\<close> included).
\<close>

datatype tool_arg = Named string | Plain string | Unnamed

record callbacks =
  handleLLMNewToken :: "(string \<Rightarrow> reply \<Rightarrow> reply) option"
  handleToolStart :: "(tool_arg \<Rightarrow> json \<Rightarrow> reply \<Rightarrow> reply) option"
  handleToolEnd :: "(string \<Rightarrow> reply \<Rightarrow> reply) option"

text \<open>\<^verbatim>\<open>tool?.name || (typeof tool === 'string' ? tool : 'unknown')\<close>\<close>

definition handler_toolName :: "tool_arg \<Rightarrow> string" where
  "handler_toolName tool =
     (case tool of
        Named n \<Rightarrow> (if n \<noteq> [] then n else ''unknown'')
      | Plain s \<Rightarrow> s
      | Unnamed \<Rightarrow> ''unknown'')"

text \<open>
  The handlers \<^verbatim>\<open>chatRoute\<close> registers. \<^verbatim>\<open>CallbackManager.fromHandlers\<close> belongs to
  LangChain; the object it returns is taken to expose the three handlers under the
  names the executor looks up.
\<close>

definition chat_callbacks :: callbacks where
  "chat_callbacks =
     \<lparr> handleLLMNewToken = Some (\<lambda>token r. sendToken token r),
       handleToolStart = Some (\<lambda>tool input r. sendToolCall (handler_toolName tool) input r),
       handleToolEnd = Some (\<lambda>output r. sendToolResult output r) \<rparr>"

section \<open>models/agent.ts: the executor written for Gemini\<close>

text \<open>
  The file holds two revisions of \<^verbatim>\<open>createAgent\<close>; the second one, with the manual
  tool loop, is the one modelled. The completion engine and the tools are outside
  the repository: they act on a state \<open>'x\<close> of their own and cannot reach the reply.
  As the source notes, \<^verbatim>\<open>invoke()\<close> on the model does not stream.
\<close>

text \<open>
  A completion: \<^verbatim>\<open>content\<close> (here \<open>resp_content\<close>), and the two lists of tool calls, each
  \<open>None\<close> when the property is missing or is not an array. A call to the model throws,
  yields a falsy value, or yields a response. A tool (\<^verbatim>\<open>name\<close> is \<open>tool_name\<close> here) returns
  a value, read as \<^verbatim>\<open>String(result)\<close>, or throws.
\<close>

record response =
  resp_content :: json
  tool_calls :: "tool_call list option"
  invalid_tool_calls :: "tool_call list option"

datatype llm_result = LlmThrows thrown | LlmFalsy | LlmResponse response

datatype tool_outcome = Returned string | Threw thrown

record 'x tool =
  tool_name :: string
  invoke :: "json \<Rightarrow> 'x \<Rightarrow> tool_outcome \<times> 'x"

text \<open>\<^verbatim>\<open>new Map(tools.map(tool => [tool.name, tool]))\<close>: a later entry replaces an earlier one.\<close>

definition toolMap :: "'x tool list \<Rightarrow> string \<rightharpoonup> 'x tool" where
  "toolMap ts = map_of (rev (map (\<lambda>t. (tool_name t, t)) ts))"

record 'x exec =
  messages :: "base_message list"
  stream :: reply
  world :: 'x

definition maxIterations :: nat where
  "maxIterations = 5"

definition item_text :: "builtins \<Rightarrow> json \<Rightarrow> json" where
  "item_text b item =
     (case item of
        JStr s \<Rightarrow> JStr s
      | _ \<Rightarrow>
          (if truthy (get_prop item ''text'') then get_prop item ''text''
           else if get_prop item ''type'' = JStr ''text'' \<and> truthy (get_prop item ''text'') then get_prop item ''text''
           else js_stringify b item))"

text \<open>Lines 247-275: the text of a completion.\<close>

definition extract_content :: "builtins \<Rightarrow> json \<Rightarrow> string" where
  "extract_content b c =
     (case c of
        JUndefined \<Rightarrow> []
      | JNull \<Rightarrow> []
      | JStr s \<Rightarrow> s
      | JArr items \<Rightarrow> join '' '' (map (js_String b) (filter truthy (map (item_text b) items)))
      | JObj fs \<Rightarrow>
          (if truthy (get_prop c ''text'') then js_String b (get_prop c ''text'')
           else stringify b c)
      | _ \<Rightarrow> js_String b c)"

text \<open>Lines 288-291: \<^verbatim>\<open>JSON.parse\<close> of a string argument is not guarded here.\<close>

fun parse_invalid :: "builtins \<Rightarrow> tool_call list \<Rightarrow> thrown + tool_call list" where
  "parse_invalid b [] = Inr []"
| "parse_invalid b (invalid # rest) =
     (case (case args invalid of
              JStr s \<Rightarrow> (case parse b s of Inl e \<Rightarrow> Inl (Error e) | Inr v \<Rightarrow> Inr v)
            | a \<Rightarrow> Inr a) of
        Inl e \<Rightarrow> Inl e
      | Inr a \<Rightarrow>
          (case parse_invalid b rest of
             Inl e \<Rightarrow> Inl e
           | Inr tcs \<Rightarrow> Inr (\<lparr> name = name invalid, args = a \<rparr> # tcs)))"

text \<open>Lines 277-292: \<^verbatim>\<open>tool_calls\<close> first, then \<^verbatim>\<open>invalid_tool_calls\<close>.\<close>

definition find_tool_calls :: "builtins \<Rightarrow> response \<Rightarrow> thrown + tool_call list" where
  "find_tool_calls b r =
     (let toolCalls = (case tool_calls r of
                         Some tcs \<Rightarrow> (if length tcs > 0 then tcs else [])
                       | None \<Rightarrow> [])
      in if length toolCalls = 0 then
           (case invalid_tool_calls r of
              Some invalids \<Rightarrow> parse_invalid b invalids
            | None \<Rightarrow> Inr toolCalls)
         else Inr toolCalls)"

text \<open>Lines 336-345: the arguments given to the tool.\<close>

definition parse_args :: "builtins \<Rightarrow> tool_call \<Rightarrow> json" where
  "parse_args b toolCall =
     (case args toolCall of
        JStr s \<Rightarrow> (case parse b s of Inl e \<Rightarrow> JObj [(''query'', JStr s)] | Inr v \<Rightarrow> v)
      | a \<Rightarrow> (if truthy a then a else JObj []))"

text \<open>Lines 310-312 and 418-420: one handler call per character.\<close>

primrec stream_chars :: "(string \<Rightarrow> reply \<Rightarrow> reply) \<Rightarrow> string \<Rightarrow> reply \<Rightarrow> reply" where
  "stream_chars h [] r = r"
| "stream_chars h (c # cs) r = stream_chars h cs (h [c] r)"

definition stream_text :: "callbacks option \<Rightarrow> string \<Rightarrow> 'x exec \<Rightarrow> 'x exec" where
  "stream_text cbs text st =
     (case cbs of
        None \<Rightarrow> st
      | Some cb \<Rightarrow>
          (case handleLLMNewToken cb of
             None \<Rightarrow> st
           | Some h \<Rightarrow> (if text \<noteq> [] then st\<lparr> stream := stream_chars h text (stream st) \<rparr> else st)))"

definition notify_tool_start :: "callbacks option \<Rightarrow> tool_arg \<Rightarrow> json \<Rightarrow> 'x exec \<Rightarrow> 'x exec" where
  "notify_tool_start cbs tool toolArgs st =
     (case cbs of
        None \<Rightarrow> st
      | Some cb \<Rightarrow>
          (case handleToolStart cb of
             None \<Rightarrow> st
           | Some h \<Rightarrow> st\<lparr> stream := h tool toolArgs (stream st) \<rparr>))"

definition notify_tool_end :: "callbacks option \<Rightarrow> string \<Rightarrow> 'x exec \<Rightarrow> 'x exec" where
  "notify_tool_end cbs resultStr st =
     (case cbs of
        None \<Rightarrow> st
      | Some cb \<Rightarrow>
          (case handleToolEnd cb of
             None \<Rightarrow> st
           | Some h \<Rightarrow> st\<lparr> stream := h resultStr (stream st) \<rparr>))"

text \<open>Lines 332-392: the body of \<^verbatim>\<open>for (const toolCall of toolCalls)\<close>.\<close>

definition execute_tool ::
  "builtins \<Rightarrow> 'x tool list \<Rightarrow> callbacks option \<Rightarrow> tool_call \<Rightarrow>
   base_message list \<times> 'x exec \<Rightarrow> base_message list \<times> 'x exec" where
  "execute_tool b ts cbs toolCall acc =
     (let toolResults = fst acc;
          st = snd acc;
          toolName = name toolCall;
          toolArgs = parse_args b toolCall;
          tool = toolMap ts toolName;
          st1 = notify_tool_start cbs (case tool of Some t \<Rightarrow> Named (tool_name t) | None \<Rightarrow> Unnamed) toolArgs st
      in case tool of
           Some t \<Rightarrow>
             (case invoke t toolArgs (world st1) of
                (Returned resultStr, x) \<Rightarrow>
                  (toolResults @ [AIMessage (''Tool '' @ toolName @ '' returned: '' @ resultStr) None],
                   notify_tool_end cbs resultStr (st1\<lparr> world := x \<rparr>))
              | (Threw e, x) \<Rightarrow>
                  (let errorMsg = (case e of Error m \<Rightarrow> m | NonError \<Rightarrow> ''Tool execution failed'')
                   in (toolResults @ [AIMessage (''Tool '' @ toolName @ '' error: '' @ errorMsg) None],
                       st1\<lparr> world := x \<rparr>)))
         | None \<Rightarrow>
             (let errorMsg = ''Tool '' @ toolName @ '' not found''
              in (toolResults @ [AIMessage (''Tool '' @ toolName @ '' error: '' @ errorMsg) None], st1)))"

primrec execute_tools ::
  "builtins \<Rightarrow> 'x tool list \<Rightarrow> callbacks option \<Rightarrow> tool_call list \<Rightarrow>
   base_message list \<times> 'x exec \<Rightarrow> base_message list \<times> 'x exec" where
  "execute_tools b ts cbs [] acc = acc"
| "execute_tools b ts cbs (toolCall # rest) acc =
     execute_tools b ts cbs rest (execute_tool b ts cbs toolCall acc)"

text \<open>How one pass through the \<^verbatim>\<open>while\<close> body ends.\<close>

datatype step = Next | Return string | Raise thrown

text \<open>Lines 221-404: one round.\<close>

definition iteration ::
  "builtins \<Rightarrow> (base_message list \<Rightarrow> 'x \<Rightarrow> llm_result \<times> 'x) \<Rightarrow> 'x tool list \<Rightarrow>
   callbacks option \<Rightarrow> 'x exec \<Rightarrow> step \<times> 'x exec" where
  "iteration b llm ts cbs st =
     (case llm (messages st) (world st) of
        (LlmThrows e, x) \<Rightarrow>
          (Return ''I encountered an error processing your request. Please try again.'',
           st\<lparr> world := x \<rparr>)
      | (LlmFalsy, x) \<Rightarrow>
          (Return ''I did not receive a response. Please try again.'', st\<lparr> world := x \<rparr>)
      | (LlmResponse r, x) \<Rightarrow>
          (let st1 = st\<lparr> world := x \<rparr>;
               responseContent = extract_content b (resp_content r)
           in case find_tool_calls b r of
                Inl e \<Rightarrow> (Raise e, st1)
              | Inr toolCalls \<Rightarrow>
                  (if length toolCalls = 0 then
                     (Return (if responseContent \<noteq> [] then responseContent
                              else ''I apologize, but I could not generate a response.''),
                      stream_text cbs responseContent st1)
                   else
                     (let res = execute_tools b ts cbs toolCalls ([], st1);
                          toolResults = fst res;
                          st2 = snd res;
                          aiMessage = AIMessage responseContent
                                        (if length toolCalls > 0 then Some toolCalls else None)
                      in (Next, st2\<lparr> messages := messages st2 @ [aiMessage] @ toolResults \<rparr>)))))"

text \<open>Lines 407-425: after the loop.\<close>

definition max_iterations_reached :: "callbacks option \<Rightarrow> 'x exec \<Rightarrow> string \<times> 'x exec" where
  "max_iterations_reached cbs st =
     (let finalOutput = (case messages st of [] \<Rightarrow> [] | m # ms \<Rightarrow> message_content (last (messages st)))
      in (if finalOutput \<noteq> [] then finalOutput
          else ''I reached the maximum number of tool calls. Please try a simpler query.'',
          stream_text cbs finalOutput st))"

text \<open>
  Lines 213-405: the loop. The result is what \<^verbatim>\<open>invoke\<close> throws or the \<^verbatim>\<open>output\<close> it
  returns, with the final value of \<^verbatim>\<open>iterations\<close> and the final state.
\<close>

function run_loop ::
  "builtins \<Rightarrow> (base_message list \<Rightarrow> 'x \<Rightarrow> llm_result \<times> 'x) \<Rightarrow> 'x tool list \<Rightarrow>
   callbacks option \<Rightarrow> nat \<Rightarrow> 'x exec \<Rightarrow> (thrown + string) \<times> nat \<times> 'x exec" where
  "run_loop b llm ts cbs iterations st =
     (if iterations < maxIterations then
        (case iteration b llm ts cbs st of
           (Next, st') \<Rightarrow> run_loop b llm ts cbs (iterations + 1) st'
         | (Return output, st') \<Rightarrow> (Inr output, iterations + 1, st')
         | (Raise e, st') \<Rightarrow> (Inl e, iterations + 1, st'))
      else
        (case max_iterations_reached cbs st of
           (output, st') \<Rightarrow> (Inr output, iterations, st')))"
  by pat_completeness auto
termination
  by (relation "measure (\<lambda>(b, llm, ts, cbs, iterations, st). maxIterations - iterations)") auto

definition gemini_invoke ::
  "builtins \<Rightarrow> (base_message list \<Rightarrow> 'x \<Rightarrow> llm_result \<times> 'x) \<Rightarrow> 'x tool list \<Rightarrow>
   string \<Rightarrow> base_message list \<Rightarrow> callbacks option \<Rightarrow> reply \<Rightarrow> 'x \<Rightarrow>
   (thrown + string) \<times> nat \<times> 'x exec" where
  "gemini_invoke b llm ts input chat_history cbs r x =
     run_loop b llm ts cbs 0
       \<lparr> messages = chat_history @ [HumanMessage input], stream = r, world = x \<rparr>"

section \<open>models/llm.ts and the agent factory\<close>

datatype provider = OpenAI | Gemini

record env =
  MODEL_PROVIDER :: provider
  OPENAI_API_KEY :: "string option"
  GOOGLE_API_KEY :: "string option"

text \<open>
  \<^verbatim>\<open>createLLM\<close>: \<^verbatim>\<open>!env.KEY\<close> holds for a missing key and for the empty string. The
  environment schema admits the two providers only, so the final \<^verbatim>\<open>throw\<close> for an
  unsupported provider is not reached.
\<close>

definition createLLM :: "env \<Rightarrow> thrown + unit" where
  "createLLM e =
     (if MODEL_PROVIDER e = OpenAI then
        (if OPENAI_API_KEY e = None \<or> OPENAI_API_KEY e = Some [] then
           Inl (Error ''OPENAI_API_KEY is required when using OpenAI provider'')
         else Inr ())
      else
        (if GOOGLE_API_KEY e = None \<or> GOOGLE_API_KEY e = Some [] then
           Inl (Error ''GOOGLE_API_KEY is required when using Gemini provider'')
         else Inr ()))"

text \<open>\<^verbatim>\<open>createAgent\<close> builds the model first and then picks the executor by provider.\<close>

definition createAgent :: "env \<Rightarrow> thrown + provider" where
  "createAgent e =
     (case createLLM e of
        Inl err \<Rightarrow> Inl err
      | Inr u \<Rightarrow> Inr (MODEL_PROVIDER e))"

text \<open>
  With the OpenAI provider the loop is LangChain's \<^verbatim>\<open>AgentExecutor\<close>. Seen from this
  repository it is a sequence of calls to the registered handlers followed by a
  returned output or a thrown value.
\<close>

datatype callback_event = NewToken string | ToolStart tool_arg json | ToolEnd string

definition deliver :: "callbacks option \<Rightarrow> callback_event \<Rightarrow> reply \<Rightarrow> reply" where
  "deliver cbs ev r =
     (case cbs of
        None \<Rightarrow> r
      | Some cb \<Rightarrow>
          (case ev of
             NewToken t \<Rightarrow> (case handleLLMNewToken cb of Some h \<Rightarrow> h t r | None \<Rightarrow> r)
           | ToolStart tool input \<Rightarrow> (case handleToolStart cb of Some h \<Rightarrow> h tool input r | None \<Rightarrow> r)
           | ToolEnd output \<Rightarrow> (case handleToolEnd cb of Some h \<Rightarrow> h output r | None \<Rightarrow> r)))"

primrec deliver_all :: "callbacks option \<Rightarrow> callback_event list \<Rightarrow> reply \<Rightarrow> reply" where
  "deliver_all cbs [] r = r"
| "deliver_all cbs (ev # evs) r = deliver_all cbs evs (deliver cbs ev r)"

text \<open>Everything outside the repository that a turn depends on.\<close>

record 'x services =
  runtime :: builtins
  llmWithTools :: "base_message list \<Rightarrow> 'x \<Rightarrow> llm_result \<times> 'x"
  tools :: "'x tool list"
  agentExecutor :: "string \<Rightarrow> base_message list \<Rightarrow> 'x \<Rightarrow> (callback_event list \<times> (thrown + string)) \<times> 'x"

text \<open>\<^verbatim>\<open>agent.executor.invoke({ input, chat_history }, { callbacks })\<close> for either provider.\<close>

definition executor_invoke ::
  "provider \<Rightarrow> 'x services \<Rightarrow> string \<Rightarrow> base_message list \<Rightarrow> callbacks option \<Rightarrow>
   reply \<Rightarrow> 'x \<Rightarrow> (thrown + string) \<times> reply \<times> 'x" where
  "executor_invoke p svc input chat_history cbs r x =
     (case p of
        OpenAI \<Rightarrow>
          (case agentExecutor svc input chat_history x of
             ((evs, result), x') \<Rightarrow> (result, deliver_all cbs evs r, x'))
      | Gemini \<Rightarrow>
          (case gemini_invoke (runtime svc) (llmWithTools svc) (tools svc) input chat_history cbs r x of
             (result, iterations, st) \<Rightarrow> (result, stream st, world st)))"

section \<open>routes/chat.ts: one turn\<close>

record 'x server =
  memory :: sessions
  res :: reply
  outside :: 'x

definition set_sse_headers :: "reply \<Rightarrow> reply" where
  "set_sse_headers r =
     r\<lparr> headers := headers r @
          [(''Content-Type'', ''text/event-stream''),
           (''Cache-Control'', ''no-cache''),
           (''Connection'', ''keep-alive''),
           (''Access-Control-Allow-Origin'', ''*'')] \<rparr>"

text \<open>The \<^verbatim>\<open>catch\<close> block of the route.\<close>

definition chat_error :: "thrown \<Rightarrow> 'x server \<Rightarrow> 'x server" where
  "chat_error e srv =
     srv\<lparr> res := sendDone (sendError (case e of Error m \<Rightarrow> m | NonError \<Rightarrow> ''Unknown error occurred'')
                                  (res srv)) \<rparr>"

definition chatRoute :: "env \<Rightarrow> 'x services \<Rightarrow> json \<Rightarrow> 'x server \<Rightarrow> 'x server" where
  "chatRoute e svc body srv =
     (case safeParse body of
        Inl errors \<Rightarrow>
          srv\<lparr> res := (res srv)\<lparr> sent := Some (400, \<lparr> error = ''Invalid request'', details = errors \<rparr>) \<rparr> \<rparr>
      | Inr req \<Rightarrow>
          (let sid = (case sessionId req of Some s \<Rightarrow> s | None \<Rightarrow> ''default'');
               srv1 = srv\<lparr> res := set_sse_headers (res srv) \<rparr>
           in case createAgent e of
                Inl err \<Rightarrow> chat_error err srv1
              | Inr p \<Rightarrow>
                  (let srv2 = srv1\<lparr> memory := addMessage sid \<lparr> role = User, content = message req \<rparr> (memory srv1) \<rparr>
                   in case executor_invoke p svc (message req) (getLangChainMessages (memory srv2) sid)
                             (Some chat_callbacks) (res srv2) (outside srv2) of
                        (Inr output, r, x) \<Rightarrow>
                          (let srv3 = srv2\<lparr> res := r, outside := x \<rparr>;
                               srv4 = srv3\<lparr> memory := addMessage sid \<lparr> role = Assistant, content = output \<rparr> (memory srv3) \<rparr>
                           in srv4\<lparr> res := sendDone (res srv4) \<rparr>)
                      | (Inl err, r, x) \<Rightarrow> chat_error err (srv2\<lparr> res := r, outside := x \<rparr>))))"

section \<open>Notions used to state the properties\<close>

text \<open>
  The frames an executor can cause through the handlers of \<^verbatim>\<open>chatRoute\<close>, and the
  relation between a reply and a later one that differs only by such frames.
\<close>

definition quiet_frame :: "frame \<Rightarrow> bool" where
  "quiet_frame f = (event f = ''token'' \<or> event f = ''tool_call'' \<or> event f = ''tool_result'')"

definition streams_on :: "reply \<Rightarrow> reply \<Rightarrow> bool" where
  "streams_on r r' =
     (headers r' = headers r \<and> sent r' = sent r \<and> ended r' = ended r \<and>
      take (length (wire r)) (wire r') = wire r \<and>
      list_all quiet_frame (drop (length (wire r)) (wire r')))"

definition is_done :: "frame \<Rightarrow> bool" where
  "is_done f = (event f = ''done'')"

text \<open>
  The state of the loop after \<open>n\<close> rounds that all ended by going back to the loop
  head (each executed tools); \<open>None\<close> when an earlier round returned or threw.
\<close>

fun after_rounds ::
  "builtins \<Rightarrow> (base_message list \<Rightarrow> 'x \<Rightarrow> llm_result \<times> 'x) \<Rightarrow> 'x tool list \<Rightarrow>
   callbacks option \<Rightarrow> nat \<Rightarrow> 'x exec \<Rightarrow> 'x exec option" where
  "after_rounds b llm ts cbs 0 st = Some st"
| "after_rounds b llm ts cbs (Suc n) st =
     (case iteration b llm ts cbs st of
        (Next, st') \<Rightarrow> after_rounds b llm ts cbs n st'
      | (Return output, st') \<Rightarrow> None
      | (Raise e, st') \<Rightarrow> None)"

section \<open>Test doubles for concrete turns\<close>

text \<open>
  A runtime whose \<^verbatim>\<open>JSON.parse\<close> rejects every string, a completion engine that answers
  from a script and logs the message sequences it was asked about (the log is the
  outside state), and a fresh server.
\<close>

definition plain_js :: builtins where
  "plain_js =
     \<lparr> parse = (\<lambda>s. Inl ''Unexpected token''),
       stringify = (\<lambda>v. ''{}''),
       toString = (\<lambda>v. ''[object Object]'') \<rparr>"

definition scripted_llm ::
  "llm_result list \<Rightarrow> base_message list \<Rightarrow> base_message list list \<Rightarrow>
   llm_result \<times> base_message list list" where
  "scripted_llm script msgs log =
     ((if length log < length script then script ! length log else LlmFalsy), log @ [msgs])"

definition no_agent ::
  "string \<Rightarrow> base_message list \<Rightarrow> base_message list list \<Rightarrow>
   (callback_event list \<times> (thrown + string)) \<times> base_message list list" where
  "no_agent inp hist log = (([], Inl (Error ''not configured'')), log)"

definition scripted_services ::
  "llm_result list \<Rightarrow> base_message list list tool list \<Rightarrow> base_message list list services" where
  "scripted_services script ts =
     \<lparr> runtime = plain_js, llmWithTools = scripted_llm script, tools = ts, agentExecutor = no_agent \<rparr>"

definition gemini_env :: env where
  "gemini_env = \<lparr> MODEL_PROVIDER = Gemini, OPENAI_API_KEY = None, GOOGLE_API_KEY = Some ''key'' \<rparr>"

definition fresh_reply :: reply where
  "fresh_reply = \<lparr> headers = [], sent = None, wire = [], ended = False \<rparr>"

definition fresh_server :: "base_message list list server" where
  "fresh_server = \<lparr> memory = Map.empty, res = fresh_reply, outside = [] \<rparr>"

definition ask :: "string \<Rightarrow> json" where
  "ask m = JObj [(''message'', JStr m)]"

definition answer :: "string \<Rightarrow> llm_result" where
  "answer s = LlmResponse \<lparr> resp_content = JStr s, tool_calls = None, invalid_tool_calls = None \<rparr>"

section \<open>A turn of the manual strategy\<close>

text \<open>The session a request addresses: \<^verbatim>\<open>sessionId = 'default'\<close> when none is given.\<close>

definition session_of :: "chat_request \<Rightarrow> string" where
  "session_of req = (case sessionId req of Some s \<Rightarrow> s | None \<Rightarrow> ''default'')"

text \<open>
  The state in which \<^verbatim>\<open>chatRoute\<close> starts the loop: the user message is already in
  the store, so the history handed over ends with it, and the executor appends it
  once more as a \<^verbatim>\<open>HumanMessage\<close>.
\<close>

definition turn_start :: "chat_request \<Rightarrow> 'x server \<Rightarrow> 'x exec" where
  "turn_start req srv =
     \<lparr> messages =
         getLangChainMessages
           (addMessage (session_of req) \<lparr> role = User, content = message req \<rparr> (memory srv))
           (session_of req) @ [HumanMessage (message req)],
       stream = set_sse_headers (res srv),
       world = outside srv \<rparr>"

text \<open>The frames of one kind on a reply, and the text its token frames spell.\<close>

definition frames_of :: "string \<Rightarrow> reply \<Rightarrow> frame list" where
  "frames_of ev r = filter (\<lambda>f. event f = ev) (wire r)"


definition openai_env :: env where
  "openai_env = \<lparr> MODEL_PROVIDER = OpenAI, OPENAI_API_KEY = Some ''key'', GOOGLE_API_KEY = None \<rparr>"

section \<open>Tool rounds in the working sequence\<close>

text \<open>
  A message is the recorded result of a tool call when it is an \<^verbatim>\<open>AIMessage\<close> without
  tool calls whose content starts with \<^verbatim>\<open>Tool <name> returned: \<close> or \<^verbatim>\<open>Tool <name> error: \<close>.
\<close>

definition tool_result_for :: "tool_call \<Rightarrow> base_message \<Rightarrow> bool" where
  "tool_result_for tc m =
     (case m of
        AIMessage c None \<Rightarrow>
          take (length (''Tool '' @ name tc @ '' returned: '')) c = ''Tool '' @ name tc @ '' returned: '' \<or>
          take (length (''Tool '' @ name tc @ '' error: '')) c = ''Tool '' @ name tc @ '' error: ''
      | _ \<Rightarrow> False)"



text \<open>
  Two tools, one that returns \<^verbatim>\<open>X\<close> and one that throws \<^verbatim>\<open>Error('kaput')\<close>, and a completion
  that asks for one tool by name with an empty argument object.
\<close>

definition lookup_tool :: "base_message list list tool" where
  "lookup_tool = \<lparr> tool_name = ''lookup'', invoke = (\<lambda>a w. (Returned ''X'', w)) \<rparr>"

definition boom_tool :: "base_message list list tool" where
  "boom_tool = \<lparr> tool_name = ''boom'', invoke = (\<lambda>a w. (Threw (Error ''kaput''), w)) \<rparr>"

definition call :: "string \<Rightarrow> llm_result" where
  "call n =
     LlmResponse \<lparr> resp_content = JStr [],
                   tool_calls = Some [\<lparr> name = n, args = JObj [] \<rparr>],
                   invalid_tool_calls = None \<rparr>"

text \<open>
  A completion engine that gives the same response to every request (and logs the
  request), and the effect on the loop state of one round in which it asks for one
  tool: \<open>tool_round_effect n shown result\<close> appends the assistant message recording the
  call and the result message and writes the \<^verbatim>\<open>tool_call\<close> frame naming \<open>shown\<close>, followed
  by the \<^verbatim>\<open>tool_result\<close> frame when \<open>output\<close> is given.
\<close>

definition repeating_llm ::
  "llm_result \<Rightarrow> base_message list \<Rightarrow> base_message list list \<Rightarrow> llm_result \<times> base_message list list" where
  "repeating_llm resp msgs log = (resp, log @ [msgs])"


definition tool_round_effect ::
  "string \<Rightarrow> string \<Rightarrow> string \<Rightarrow> string option \<Rightarrow>
   base_message list list exec \<Rightarrow> base_message list list exec" where
  "tool_round_effect n shown recorded output st =
     st\<lparr> messages := messages st @
            [AIMessage [] (Some [\<lparr> name = n, args = JObj [] \<rparr>]), AIMessage recorded None],
         stream := (case output of
                      None \<Rightarrow> sendToolCall shown (JObj []) (stream st)
                    | Some s \<Rightarrow> sendToolResult s (sendToolCall shown (JObj []) (stream st))),
         world := world st @ [messages st] \<rparr>"


section \<open>The handlers and the reply\<close>

lemma streams_on_refl: "streams_on r r"
  by (simp add: streams_on_def)

lemma streams_onI:
  "headers r' = headers r \<Longrightarrow> sent r' = sent r \<Longrightarrow> ended r' = ended r \<Longrightarrow>
   wire r' = wire r @ fs \<Longrightarrow> list_all quiet_frame fs \<Longrightarrow> streams_on r r'"
  by (simp add: streams_on_def)

lemma streams_onD:
  assumes "streams_on r r'"
  shows "\<exists>fs. wire r' = wire r @ fs \<and> list_all quiet_frame fs"
proof -
  have "wire r' = take (length (wire r)) (wire r') @ drop (length (wire r)) (wire r')"
    by simp
  with assms show ?thesis
    unfolding streams_on_def by metis
qed

lemma streams_on_trans:
  assumes "streams_on r r'" and "streams_on r' r''"
  shows "streams_on r r''"
proof -
  obtain fs where fs: "wire r' = wire r @ fs" "list_all quiet_frame fs"
    using streams_onD[OF assms(1)] by blast
  obtain gs where gs: "wire r'' = wire r' @ gs" "list_all quiet_frame gs"
    using streams_onD[OF assms(2)] by blast
  have "wire r'' = wire r @ (fs @ gs)" using fs gs by simp
  moreover have "list_all quiet_frame (fs @ gs)" using fs gs by simp
  ultimately show ?thesis
    using assms by (intro streams_onI[where fs = "fs @ gs"]) (simp_all add: streams_on_def)
qed

lemma streams_on_sendToken: "streams_on r (sendToken t r)"
  by (simp add: streams_on_def sendToken_def sendSSE_def quiet_frame_def)

lemma streams_on_sendToolCall: "streams_on r (sendToolCall n i r)"
  by (simp add: streams_on_def sendToolCall_def sendSSE_def quiet_frame_def)

lemma streams_on_sendToolResult: "streams_on r (sendToolResult s r)"
  by (simp add: streams_on_def sendToolResult_def sendSSE_def quiet_frame_def)

lemma streams_on_stream_chars: "streams_on r (stream_chars sendToken s r)"
proof (induction s arbitrary: r)
  case Nil
  show ?case by (simp add: streams_on_refl)
next
  case (Cons c cs)
  show ?case
    using streams_on_trans[OF streams_on_sendToken Cons.IH] by simp
qed

lemma chat_callbacks_simps:
  "handleLLMNewToken chat_callbacks = Some sendToken"
  "handleToolStart chat_callbacks = Some (\<lambda>tool input r. sendToolCall (handler_toolName tool) input r)"
  "handleToolEnd chat_callbacks = Some sendToolResult"
  by (simp_all add: chat_callbacks_def)

lemma stream_text_chat:
  "stream_text (Some chat_callbacks) text st =
     (if text \<noteq> [] then st\<lparr> stream := stream_chars sendToken text (stream st) \<rparr> else st)"
  by (simp add: stream_text_def chat_callbacks_simps)

lemma notify_tool_start_chat:
  "notify_tool_start (Some chat_callbacks) tool toolArgs st =
     st\<lparr> stream := sendToolCall (handler_toolName tool) toolArgs (stream st) \<rparr>"
  by (simp add: notify_tool_start_def chat_callbacks_simps)

lemma notify_tool_end_chat:
  "notify_tool_end (Some chat_callbacks) resultStr st =
     st\<lparr> stream := sendToolResult resultStr (stream st) \<rparr>"
  by (simp add: notify_tool_end_def chat_callbacks_simps)

lemma streams_on_stream_text:
  "streams_on (stream st) (stream (stream_text (Some chat_callbacks) text st))"
  by (simp add: stream_text_chat streams_on_refl streams_on_stream_chars)

lemma messages_stream_text [simp]:
  "messages (stream_text cbs text st) = messages st"
  by (simp add: stream_text_def split: option.splits)

lemma world_stream_text [simp]:
  "world (stream_text cbs text st) = world st"
  by (simp add: stream_text_def split: option.splits)

lemma streams_on_execute_tool:
  "streams_on (stream (snd acc)) (stream (snd (execute_tool b ts (Some chat_callbacks) tc acc)))"
  by (auto simp: execute_tool_def Let_def notify_tool_start_chat notify_tool_end_chat
      intro: streams_on_sendToolCall streams_on_trans[OF streams_on_sendToolCall streams_on_sendToolResult]
      split: option.splits prod.splits tool_outcome.splits)

lemma messages_execute_tool [simp]:
  "messages (snd (execute_tool b ts cbs tc acc)) = messages (snd acc)"
  by (auto simp: execute_tool_def Let_def notify_tool_start_def notify_tool_end_def
      split: option.splits prod.splits tool_outcome.splits)

lemma streams_on_execute_tools:
  "streams_on (stream (snd acc)) (stream (snd (execute_tools b ts (Some chat_callbacks) tcs acc)))"
proof (induction tcs arbitrary: acc)
  case Nil
  show ?case by (simp add: streams_on_refl)
next
  case (Cons tc tcs)
  show ?case
    using streams_on_trans[OF streams_on_execute_tool Cons.IH] by simp
qed

lemma messages_execute_tools [simp]:
  "messages (snd (execute_tools b ts cbs tcs acc)) = messages (snd acc)"
  by (induction tcs arbitrary: acc) simp_all

declare run_loop.simps [simp del]

lemma iteration_llm_throws:
  "llm (messages st) (world st) = (LlmThrows e, x) \<Longrightarrow>
   iteration b llm ts cbs st =
     (Return ''I encountered an error processing your request. Please try again.'', st\<lparr> world := x \<rparr>)"
  by (simp add: iteration_def)

lemma iteration_llm_falsy:
  "llm (messages st) (world st) = (LlmFalsy, x) \<Longrightarrow>
   iteration b llm ts cbs st =
     (Return ''I did not receive a response. Please try again.'', st\<lparr> world := x \<rparr>)"
  by (simp add: iteration_def)

lemma iteration_raise:
  "llm (messages st) (world st) = (LlmResponse r, x) \<Longrightarrow> find_tool_calls b r = Inl e \<Longrightarrow>
   iteration b llm ts cbs st = (Raise e, st\<lparr> world := x \<rparr>)"
  by (simp add: iteration_def)

lemma iteration_final:
  "llm (messages st) (world st) = (LlmResponse r, x) \<Longrightarrow> find_tool_calls b r = Inr [] \<Longrightarrow>
   iteration b llm ts cbs st =
     (Return (if extract_content b (resp_content r) \<noteq> [] then extract_content b (resp_content r)
              else ''I apologize, but I could not generate a response.''),
      stream_text cbs (extract_content b (resp_content r)) (st\<lparr> world := x \<rparr>))"
  by (simp add: iteration_def Let_def)

lemma iteration_tools:
  "llm (messages st) (world st) = (LlmResponse r, x) \<Longrightarrow> find_tool_calls b r = Inr tcs \<Longrightarrow>
   tcs \<noteq> [] \<Longrightarrow>
   iteration b llm ts cbs st =
     (Next, (snd (execute_tools b ts cbs tcs ([], st\<lparr> world := x \<rparr>)))
              \<lparr> messages := messages st @ AIMessage (extract_content b (resp_content r)) (Some tcs) #
                               fst (execute_tools b ts cbs tcs ([], st\<lparr> world := x \<rparr>)) \<rparr>)"
  by (simp add: iteration_def Let_def)

lemma iteration_cases:
  obtains
    (throws) e x where "llm (messages st) (world st) = (LlmThrows e, x)"
  | (falsy) x where "llm (messages st) (world st) = (LlmFalsy, x)"
  | (raise) r x e where "llm (messages st) (world st) = (LlmResponse r, x)" "find_tool_calls b r = Inl e"
  | (final) r x where "llm (messages st) (world st) = (LlmResponse r, x)" "find_tool_calls b r = Inr []"
  | (tools) r x tcs where "llm (messages st) (world st) = (LlmResponse r, x)"
      "find_tool_calls b r = Inr tcs" "tcs \<noteq> []"
proof (cases "llm (messages st) (world st)")
  case (Pair res x)
  show ?thesis
  proof (cases res)
    case (LlmThrows e)
    with Pair throws show ?thesis by simp
  next
    case LlmFalsy
    with Pair falsy show ?thesis by simp
  next
    case (LlmResponse r)
    show ?thesis
    proof (cases "find_tool_calls b r")
      case (Inl e)
      with Pair LlmResponse raise show ?thesis by simp
    next
      case (Inr tcs)
      with Pair LlmResponse final tools show ?thesis by (cases tcs) simp_all
    qed
  qed
qed

lemma streams_on_iteration:
  assumes "iteration b llm ts (Some chat_callbacks) st = (stp, st')"
  shows "streams_on (stream st) (stream st')"
proof (cases rule: iteration_cases[where llm = llm and st = st and b = b])
  case (throws e x)
  with assms show ?thesis by (auto simp: iteration_llm_throws streams_on_refl)
next
  case (falsy x)
  with assms show ?thesis by (auto simp: iteration_llm_falsy streams_on_refl)
next
  case (raise r x e)
  with assms show ?thesis by (auto simp: iteration_raise streams_on_refl)
next
  case (final r x)
  have "streams_on (stream (st\<lparr> world := x \<rparr>))
          (stream (stream_text (Some chat_callbacks) (extract_content b (resp_content r)) (st\<lparr> world := x \<rparr>)))"
    by (rule streams_on_stream_text)
  with assms final show ?thesis by (auto simp: iteration_final)
next
  case (tools r x tcs)
  have "streams_on (stream (snd ([] :: base_message list, st\<lparr> world := x \<rparr>)))
          (stream (snd (execute_tools b ts (Some chat_callbacks) tcs ([], st\<lparr> world := x \<rparr>))))"
    by (rule streams_on_execute_tools)
  with assms tools show ?thesis by (auto simp: iteration_tools)
qed

lemma run_loop_Next:
  "iterations < maxIterations \<Longrightarrow> iteration b llm ts cbs st = (Next, st') \<Longrightarrow>
   run_loop b llm ts cbs iterations st = run_loop b llm ts cbs (Suc iterations) st'"
  by (subst run_loop.simps) simp

lemma run_loop_Return:
  "iterations < maxIterations \<Longrightarrow> iteration b llm ts cbs st = (Return output, st') \<Longrightarrow>
   run_loop b llm ts cbs iterations st = (Inr output, Suc iterations, st')"
  by (subst run_loop.simps) simp

lemma run_loop_Raise:
  "iterations < maxIterations \<Longrightarrow> iteration b llm ts cbs st = (Raise e, st') \<Longrightarrow>
   run_loop b llm ts cbs iterations st = (Inl e, Suc iterations, st')"
  by (subst run_loop.simps) simp

lemma run_loop_exhausted:
  "\<not> iterations < maxIterations \<Longrightarrow>
   run_loop b llm ts cbs iterations st =
     (Inr (fst (max_iterations_reached cbs st)), iterations, snd (max_iterations_reached cbs st))"
  by (subst run_loop.simps) (simp split: prod.splits)

lemma run_loop_after_rounds:
  "after_rounds b llm ts cbs n st = Some st' \<Longrightarrow> i + n \<le> maxIterations \<Longrightarrow>
   run_loop b llm ts cbs i st = run_loop b llm ts cbs (i + n) st'"
proof (induction n arbitrary: i st)
  case 0
  then show ?case by simp
next
  case (Suc n)
  from Suc.prems(1) obtain st1 where it: "iteration b llm ts cbs st = (Next, st1)"
    and rest: "after_rounds b llm ts cbs n st1 = Some st'"
    by (auto split: prod.splits step.splits)
  from Suc.prems(2) have "i < maxIterations" and "Suc i + n \<le> maxIterations" by simp_all
  with it rest Suc.IH[of st1 "Suc i"] show ?case
    by (simp add: run_loop_Next)
qed

lemma streams_on_max_iterations_reached:
  "streams_on (stream st) (stream (snd (max_iterations_reached (Some chat_callbacks) st)))"
  by (simp add: max_iterations_reached_def Let_def streams_on_stream_text)

lemma streams_on_run_loop_aux:
  "run_loop b llm ts cbs i st = (result, n, st') \<Longrightarrow> cbs = Some chat_callbacks \<Longrightarrow>
   streams_on (stream st) (stream st')"
proof (induction b llm ts cbs i st arbitrary: result n st' rule: run_loop.induct)
  case (1 b llm ts cbs iterations st)
  note cb = \<open>cbs = Some chat_callbacks\<close>
  show ?case
  proof (cases "iterations < maxIterations")
    case False
    with "1.prems" show ?thesis
      using streams_on_max_iterations_reached[of st]
      by (auto simp: run_loop_exhausted)
  next
    case True
    obtain stp st1 where it: "iteration b llm ts cbs st = (stp, st1)"
      by (cases "iteration b llm ts cbs st")
    have s1: "streams_on (stream st) (stream st1)"
      using it cb by (auto intro: streams_on_iteration)
    show ?thesis
    proof (cases stp)
      case Next
      with True it "1.prems" have "run_loop b llm ts cbs (iterations + 1) st1 = (result, n, st')"
        by (simp add: run_loop_Next)
      with "1.IH"[OF True _ _ this cb] it Next have "streams_on (stream st1) (stream st')"
        by simp
      with s1 show ?thesis by (rule streams_on_trans)
    next
      case (Return out)
      with True it "1.prems" s1 show ?thesis by (auto simp: run_loop_Return)
    next
      case (Raise e)
      with True it "1.prems" s1 show ?thesis by (auto simp: run_loop_Raise)
    qed
  qed
qed

lemma streams_on_run_loop:
  "run_loop b llm ts (Some chat_callbacks) i st = (result, n, st') \<Longrightarrow>
   streams_on (stream st) (stream st')"
  by (rule streams_on_run_loop_aux) simp_all


lemma streams_on_no_done:
  assumes "streams_on r r'"
  shows "filter is_done (wire r') = filter is_done (wire r)"
proof -
  obtain fs where fs: "wire r' = wire r @ fs" "list_all quiet_frame fs"
    using streams_onD[OF assms] by blast
  have "filter is_done fs = []"
    using fs(2) by (induction fs) (auto simp: is_done_def quiet_frame_def)
  with fs(1) show ?thesis by simp
qed

lemma streams_on_deliver: "streams_on r (deliver (Some chat_callbacks) ev r)"
  by (cases ev)
     (simp_all add: deliver_def chat_callbacks_simps streams_on_sendToken streams_on_sendToolCall
        streams_on_sendToolResult)

lemma streams_on_deliver_all: "streams_on r (deliver_all (Some chat_callbacks) evs r)"
proof (induction evs arbitrary: r)
  case Nil
  show ?case by (simp add: streams_on_refl)
next
  case (Cons ev evs)
  show ?case
    using streams_on_trans[OF streams_on_deliver Cons.IH] by simp
qed

lemma streams_on_executor_invoke:
  assumes "executor_invoke p svc inp hist (Some chat_callbacks) r x = (result, r', x')"
  shows "streams_on r r'"
proof (cases p)
  case OpenAI
  with assms show ?thesis
    by (auto simp: executor_invoke_def streams_on_deliver_all split: prod.splits)
next
  case Gemini
  obtain result1 n st' where run:
    "run_loop (runtime svc) (llmWithTools svc) (tools svc) (Some chat_callbacks) 0
       \<lparr> messages = hist @ [HumanMessage inp], stream = r, world = x \<rparr> = (result1, n, st')"
    by (metis prod_cases3)
  from streams_on_run_loop[OF run] have "streams_on r (stream st')" by simp
  with assms Gemini run show ?thesis
    by (simp add: executor_invoke_def gemini_invoke_def)
qed

lemma filter_done_sendDone:
  "filter is_done (wire (sendDone r)) = filter is_done (wire r) @ [\<lparr> event = ''done'', data = JObj [] \<rparr>]"
  by (simp add: sendDone_def sendSSE_def is_done_def)

lemma wire_sendDone: "wire (sendDone r) = wire r @ [\<lparr> event = ''done'', data = JObj [] \<rparr>]"
  by (simp add: sendDone_def sendSSE_def)

lemma ended_sendDone: "ended (sendDone r)"
  by (simp add: sendDone_def)

lemma filter_done_sendError: "filter is_done (wire (sendError m r)) = filter is_done (wire r)"
  by (simp add: sendError_def sendSSE_def is_done_def)

lemma chatRoute_valid_shape:
  assumes "safeParse body = Inr req"
  shows "\<exists>r'. res (chatRoute e svc body srv) = sendDone r' \<and>
              filter is_done (wire r') = filter is_done (wire (res srv))"
proof (cases "createAgent e")
  case (Inl err)
  with assms show ?thesis
    by (auto simp: chatRoute_def Let_def chat_error_def filter_done_sendError set_sse_headers_def)
next
  case (Inr p)
  let ?sid = "case sessionId req of Some s \<Rightarrow> s | None \<Rightarrow> ''default''"
  let ?mem = "addMessage ?sid \<lparr> role = User, content = message req \<rparr> (memory srv)"
  obtain result r' x' where ex:
    "executor_invoke p svc (message req) (getLangChainMessages ?mem ?sid) (Some chat_callbacks)
       (set_sse_headers (res srv)) (outside srv) = (result, r', x')"
    by (metis prod_cases3)
  have "streams_on (set_sse_headers (res srv)) r'"
    by (rule streams_on_executor_invoke[OF ex])
  then have nd: "filter is_done (wire r') = filter is_done (wire (res srv))"
    by (simp add: streams_on_no_done set_sse_headers_def)
  show ?thesis
  proof (cases result)
    case (Inl err)
    with assms Inr ex nd show ?thesis
      by (auto simp: chatRoute_def Let_def chat_error_def filter_done_sendError)
  next
    case (Inr out)
    with assms \<open>createAgent e = Inr p\<close> ex nd show ?thesis
      by (auto simp: chatRoute_def Let_def)
  qed
qed

lemma getHistory_addMessage: "getHistory (addMessage sid msg m) sid = getHistory m sid @ [msg]"
  by (simp add: getHistory_def addMessage_def)

lemma getHistory_addMessage_other:
  "sid' \<noteq> sid \<Longrightarrow> getHistory (addMessage sid msg m) sid' = getHistory m sid'"
  by (simp add: getHistory_def addMessage_def)

lemma chatRoute_gemini_returned:
  assumes "safeParse body = Inr req" and "createAgent e = Inr Gemini"
    and "run_loop (runtime svc) (llmWithTools svc) (tools svc) (Some chat_callbacks) 0
           (turn_start req srv) = (Inr out, n, st')"
  shows "chatRoute e svc body srv =
           \<lparr> memory = addMessage (session_of req) \<lparr> role = Assistant, content = out \<rparr>
                        (addMessage (session_of req) \<lparr> role = User, content = message req \<rparr> (memory srv)),
             res = sendDone (stream st'),
             outside = world st' \<rparr>"
  using assms
  by (simp add: chatRoute_def Let_def executor_invoke_def gemini_invoke_def turn_start_def session_of_def)



lemma run_loop_llm_throws:
  assumes "after_rounds b llm ts cbs k st0 = Some st" and "k < maxIterations"
    and "llm (messages st) (world st) = (LlmThrows err, x)"
  shows "run_loop b llm ts cbs 0 st0 =
           (Inr ''I encountered an error processing your request. Please try again.'',
            Suc k, st\<lparr> world := x \<rparr>)"
proof -
  have "run_loop b llm ts cbs 0 st0 = run_loop b llm ts cbs (0 + k) st"
    using assms(1,2) by (intro run_loop_after_rounds) simp_all
  then show ?thesis
    using assms(2) iteration_llm_throws[where llm = llm and st = st and b = b and ts = ts and cbs = cbs, OF assms(3)] by (simp add: run_loop_Return)
qed

lemma run_loop_llm_falsy:
  assumes "after_rounds b llm ts cbs k st0 = Some st" and "k < maxIterations"
    and "llm (messages st) (world st) = (LlmFalsy, x)"
  shows "run_loop b llm ts cbs 0 st0 =
           (Inr ''I did not receive a response. Please try again.'', Suc k, st\<lparr> world := x \<rparr>)"
proof -
  have "run_loop b llm ts cbs 0 st0 = run_loop b llm ts cbs (0 + k) st"
    using assms(1,2) by (intro run_loop_after_rounds) simp_all
  then show ?thesis
    using assms(2) iteration_llm_falsy[where llm = llm and st = st and b = b and ts = ts and cbs = cbs, OF assms(3)] by (simp add: run_loop_Return)
qed


lemma run_loop_budget:
  assumes "after_rounds b llm ts cbs maxIterations st0 = Some st"
  shows "run_loop b llm ts cbs 0 st0 =
           (Inr (fst (max_iterations_reached cbs st)), maxIterations, snd (max_iterations_reached cbs st))"
proof -
  have "run_loop b llm ts cbs 0 st0 = run_loop b llm ts cbs (0 + maxIterations) st"
    using assms by (intro run_loop_after_rounds) simp_all
  then show ?thesis by (simp add: run_loop_exhausted)
qed


lemma frames_of_append_wire:
  "wire r' = wire r @ fs \<Longrightarrow> frames_of ev r' = frames_of ev r @ filter (\<lambda>f. event f = ev) fs"
  by (simp add: frames_of_def)





lemma frames_of_sendToolCall:
  "ev \<noteq> ''tool_call'' \<Longrightarrow> frames_of ev (sendToolCall n i r) = frames_of ev r"
  by (auto simp: frames_of_def sendToolCall_def sendSSE_def)

lemma frames_of_sendToolResult:
  "ev \<noteq> ''tool_result'' \<Longrightarrow> frames_of ev (sendToolResult s r) = frames_of ev r"
  by (auto simp: frames_of_def sendToolResult_def sendSSE_def)

lemma frames_of_sendDone:
  "ev \<noteq> ''done'' \<Longrightarrow> frames_of ev (sendDone r) = frames_of ev r"
  by (auto simp: frames_of_def sendDone_def sendSSE_def)

lemma frames_of_sendError:
  "ev \<noteq> ''error'' \<Longrightarrow> frames_of ev (sendError m r) = frames_of ev r"
  by (auto simp: frames_of_def sendError_def sendSSE_def)

lemma frames_of_set_sse_headers: "frames_of ev (set_sse_headers r) = frames_of ev r"
  by (simp add: frames_of_def set_sse_headers_def)



lemma frames_of_execute_tool:
  assumes "ev \<noteq> ''tool_call''" and "ev \<noteq> ''tool_result''"
  shows "frames_of ev (stream (snd (execute_tool b ts (Some chat_callbacks) tc acc))) =
         frames_of ev (stream (snd acc))"
  using assms
  by (auto simp: execute_tool_def Let_def notify_tool_start_chat notify_tool_end_chat
      frames_of_sendToolCall frames_of_sendToolResult
      split: option.splits prod.splits tool_outcome.splits)

lemma frames_of_execute_tools:
  assumes "ev \<noteq> ''tool_call''" and "ev \<noteq> ''tool_result''"
  shows "frames_of ev (stream (snd (execute_tools b ts (Some chat_callbacks) tcs acc))) =
         frames_of ev (stream (snd acc))"
  using assms
  by (induction tcs arbitrary: acc) (simp_all add: frames_of_execute_tool)

lemma iteration_NextD:
  assumes "iteration b llm ts cbs st = (Next, st')"
  shows "\<exists>r x tcs. llm (messages st) (world st) = (LlmResponse r, x) \<and>
           find_tool_calls b r = Inr tcs \<and> tcs \<noteq> [] \<and>
           st' = (snd (execute_tools b ts cbs tcs ([], st\<lparr> world := x \<rparr>)))
                   \<lparr> messages := messages st @ AIMessage (extract_content b (resp_content r)) (Some tcs) #
                                    fst (execute_tools b ts cbs tcs ([], st\<lparr> world := x \<rparr>)) \<rparr>"
proof (cases rule: iteration_cases[where llm = llm and st = st and b = b])
  case (throws e x)
  with assms show ?thesis by (simp add: iteration_llm_throws)
next
  case (falsy x)
  with assms show ?thesis by (simp add: iteration_llm_falsy)
next
  case (raise r x e)
  with assms show ?thesis by (simp add: iteration_raise)
next
  case (final r x)
  with assms show ?thesis by (simp add: iteration_final)
next
  case (tools r x tcs)
  with assms show ?thesis by (simp add: iteration_tools)
qed

lemma frames_of_iteration_Next:
  assumes "iteration b llm ts (Some chat_callbacks) st = (Next, st')"
    and "ev \<noteq> ''tool_call''" and "ev \<noteq> ''tool_result''"
  shows "frames_of ev (stream st') = frames_of ev (stream st)"
proof -
  from iteration_NextD[OF assms(1)] obtain r :: response and x tcs where
    st': "st' = (snd (execute_tools b ts (Some chat_callbacks) tcs ([], st\<lparr> world := x \<rparr>)))
                 \<lparr> messages := messages st @ AIMessage (extract_content b (resp_content r)) (Some tcs) #
                                  fst (execute_tools b ts (Some chat_callbacks) tcs ([], st\<lparr> world := x \<rparr>)) \<rparr>"
    by blast
  have "frames_of ev (stream (snd (execute_tools b ts (Some chat_callbacks) tcs
          ([] :: base_message list, st\<lparr> world := x \<rparr>)))) =
        frames_of ev (stream (snd ([] :: base_message list, st\<lparr> world := x \<rparr>)))"
    using assms(2,3) by (rule frames_of_execute_tools)
  with st' show ?thesis by simp
qed

lemma after_rounds_Suc:
  "after_rounds b llm ts cbs (Suc n) st = Some st'' \<longleftrightarrow>
     (\<exists>st'. iteration b llm ts cbs st = (Next, st') \<and> after_rounds b llm ts cbs n st' = Some st'')"
  by (auto split: prod.splits step.splits)

lemma frames_of_after_rounds:
  assumes "after_rounds b llm ts (Some chat_callbacks) k st0 = Some st"
    and "ev \<noteq> ''tool_call''" and "ev \<noteq> ''tool_result''"
  shows "frames_of ev (stream st) = frames_of ev (stream st0)"
  using assms
proof (induction k arbitrary: st0)
  case 0
  then show ?case by simp
next
  case (Suc k)
  from Suc.prems(1) obtain st1 where it: "iteration b llm ts (Some chat_callbacks) st0 = (Next, st1)"
    and rest: "after_rounds b llm ts (Some chat_callbacks) k st1 = Some st"
    unfolding after_rounds_Suc by blast
  from Suc.IH[OF rest Suc.prems(2,3)] frames_of_iteration_Next[OF it Suc.prems(2,3)]
  show ?case by simp
qed





lemma turn_start_simps:
  "stream (turn_start req srv) = set_sse_headers (res srv)"
  "world (turn_start req srv) = outside srv"
  "messages (turn_start req srv) =
     map toLangChain (getHistory (memory srv) (session_of req)) @
       [HumanMessage (message req), HumanMessage (message req)]"
  by (simp_all add: turn_start_def getLangChainMessages_def getHistory_addMessage toLangChain_def)


lemma gemini_turn_llm_throws:
  assumes "safeParse body = Inr req" and "createAgent e = Inr Gemini"
    and "after_rounds (runtime svc) (llmWithTools svc) (tools svc) (Some chat_callbacks) k
           (turn_start req srv) = Some st"
    and "k < maxIterations"
    and "llmWithTools svc (messages st) (world st) = (LlmThrows err, x)"
  shows "chatRoute e svc body srv =
           \<lparr> memory = addMessage (session_of req)
                        \<lparr> role = Assistant,
                          content = ''I encountered an error processing your request. Please try again.'' \<rparr>
                        (addMessage (session_of req) \<lparr> role = User, content = message req \<rparr> (memory srv)),
             res = sendDone (stream st),
             outside = x \<rparr>"
  using chatRoute_gemini_returned[OF assms(1,2) run_loop_llm_throws[OF assms(3,4,5)]] by simp

lemma gemini_turn_llm_falsy:
  assumes "safeParse body = Inr req" and "createAgent e = Inr Gemini"
    and "after_rounds (runtime svc) (llmWithTools svc) (tools svc) (Some chat_callbacks) k
           (turn_start req srv) = Some st"
    and "k < maxIterations"
    and "llmWithTools svc (messages st) (world st) = (LlmFalsy, x)"
  shows "chatRoute e svc body srv =
           \<lparr> memory = addMessage (session_of req)
                        \<lparr> role = Assistant, content = ''I did not receive a response. Please try again.'' \<rparr>
                        (addMessage (session_of req) \<lparr> role = User, content = message req \<rparr> (memory srv)),
             res = sendDone (stream st),
             outside = x \<rparr>"
  using chatRoute_gemini_returned[OF assms(1,2) run_loop_llm_falsy[OF assms(3,4,5)]] by simp



lemma chatRoute_executor_thrown:
  assumes "safeParse body = Inr req" and "createAgent e = Inr p"
    and "executor_invoke p svc (message req)
           (getLangChainMessages
              (addMessage (session_of req) \<lparr> role = User, content = message req \<rparr> (memory srv))
              (session_of req))
           (Some chat_callbacks) (set_sse_headers (res srv)) (outside srv) = (Inl err, r, x)"
  shows "chatRoute e svc body srv =
           \<lparr> memory = addMessage (session_of req) \<lparr> role = User, content = message req \<rparr> (memory srv),
             res = sendDone (sendError (case err of Error m \<Rightarrow> m | NonError \<Rightarrow> ''Unknown error occurred'') r),
             outside = x \<rparr>"
  using assms by (simp add: chatRoute_def Let_def session_of_def chat_error_def)




lemma createAgent_gemini_env: "createAgent gemini_env = Inr Gemini"
  by (simp add: createAgent_def createLLM_def gemini_env_def)

lemma session_of_default: "session_of \<lparr> message = m, sessionId = None \<rparr> = ''default''"
  by (simp add: session_of_def)

lemma getHistory_empty: "getHistory Map.empty sid = []"
  by (simp add: getHistory_def)

lemma fresh_server_simps:
  "memory fresh_server = Map.empty" "res fresh_server = fresh_reply" "outside fresh_server = []"
  by (simp_all add: fresh_server_def)

lemma turn_start_fresh:
  "turn_start \<lparr> message = m, sessionId = None \<rparr> fresh_server =
     \<lparr> messages = [HumanMessage m, HumanMessage m], stream = set_sse_headers fresh_reply, world = [] \<rparr>"
  by (simp add: turn_start_def fresh_server_simps session_of_def getLangChainMessages_def
      getHistory_addMessage getHistory_empty toLangChain_def)


lemma getHistory_fresh: "getHistory (memory fresh_server) sid = []"
  by (simp add: getHistory_empty fresh_server_simps)


lemma createAgent_openai_env: "createAgent openai_env = Inr OpenAI"
  by (simp add: createAgent_def createLLM_def openai_env_def)

lemma wire_sendError:
  "wire (sendError m r) = wire r @ [\<lparr> event = ''error'', data = JObj [(''error'', JStr m)] \<rparr>]"
  by (simp add: sendError_def sendSSE_def)

lemma wire_set_sse_headers: "wire (set_sse_headers r) = wire r"
  by (simp add: set_sse_headers_def)

lemma wire_fresh_reply: "wire fresh_reply = []"
  by (simp add: fresh_reply_def)

lemma scripted_first_round:
  "llmWithTools (scripted_services (first # script) ts)
     (messages (turn_start \<lparr> message = m, sessionId = None \<rparr> fresh_server))
     (world (turn_start \<lparr> message = m, sessionId = None \<rparr> fresh_server)) =
   (first, [[HumanMessage m, HumanMessage m]])"
  by (simp add: scripted_services_def scripted_llm_def turn_start_fresh)

lemma toolMap_name: "toolMap ts n = Some t \<Longrightarrow> tool_name t = n"
  unfolding toolMap_def by (auto dest!: map_of_SomeD)

lemma world_notify_tool_start [simp]: "world (notify_tool_start cbs tool a st) = world st"
  by (simp add: notify_tool_start_def split: option.splits)

lemma messages_notify_tool_start [simp]: "messages (notify_tool_start cbs tool a st) = messages st"
  by (simp add: notify_tool_start_def split: option.splits)


lemma execute_tool_threw:
  assumes "toolMap ts (name tc) = Some t"
    and "invoke t (parse_args b tc) (world st) = (Threw thr, x)"
  shows "execute_tool b ts (Some chat_callbacks) tc (rs, st) =
           (rs @ [AIMessage (''Tool '' @ name tc @ '' error: '' @
                             (case thr of Error m \<Rightarrow> m | NonError \<Rightarrow> ''Tool execution failed'')) None],
            st\<lparr> stream := sendToolCall (handler_toolName (Named (name tc))) (parse_args b tc) (stream st),
                world := x \<rparr>)"
  using assms toolMap_name[OF assms(1)]
  by (simp add: execute_tool_def Let_def notify_tool_start_chat)

lemma execute_tool_missing:
  assumes "toolMap ts (name tc) = None"
  shows "execute_tool b ts (Some chat_callbacks) tc (rs, st) =
           (rs @ [AIMessage (''Tool '' @ name tc @ '' error: Tool '' @ name tc @ '' not found'') None],
            st\<lparr> stream := sendToolCall ''unknown'' (parse_args b tc) (stream st) \<rparr>)"
  using assms
  by (simp add: execute_tool_def Let_def notify_tool_start_chat handler_toolName_def)

lemma fst_execute_tool_threw:
  assumes "toolMap ts (name tc) = Some t"
    and "invoke t (parse_args b tc) (world (snd acc)) = (Threw thr, x)"
  shows "fst (execute_tool b ts cbs tc acc) =
           fst acc @ [AIMessage (''Tool '' @ name tc @ '' error: '' @
                       (case thr of Error m \<Rightarrow> m | NonError \<Rightarrow> ''Tool execution failed'')) None]"
  using assms by (simp add: execute_tool_def Let_def)

lemma fst_execute_tool_missing:
  assumes "toolMap ts (name tc) = None"
  shows "fst (execute_tool b ts cbs tc acc) =
           fst acc @ [AIMessage (''Tool '' @ name tc @ '' error: Tool '' @ name tc @ '' not found'') None]"
  using assms by (simp add: execute_tool_def Let_def)

lemma fst_execute_tool:
  "\<exists>m. fst (execute_tool b ts cbs tc acc) = fst acc @ [m] \<and> tool_result_for tc m"
  by (auto simp: execute_tool_def Let_def tool_result_for_def
      split: option.splits prod.splits tool_outcome.splits)

lemma fst_execute_tools:
  "\<exists>rs. fst (execute_tools b ts cbs tcs acc) = fst acc @ rs \<and> list_all2 tool_result_for tcs rs"
proof (induction tcs arbitrary: acc)
  case Nil
  show ?case by simp
next
  case (Cons tc tcs)
  obtain m where m: "fst (execute_tool b ts cbs tc acc) = fst acc @ [m]" "tool_result_for tc m"
    using fst_execute_tool by blast
  obtain rs where rs: "fst (execute_tools b ts cbs tcs (execute_tool b ts cbs tc acc)) =
      fst (execute_tool b ts cbs tc acc) @ rs" "list_all2 tool_result_for tcs rs"
    using Cons.IH by blast
  have "fst (execute_tools b ts cbs (tc # tcs) acc) = fst acc @ (m # rs)"
    using m rs by simp
  moreover have "list_all2 tool_result_for (tc # tcs) (m # rs)"
    using m rs by simp
  ultimately show ?case by blast
qed

lemma execute_tools_append:
  "execute_tools b ts cbs (xs @ ys) acc = execute_tools b ts cbs ys (execute_tools b ts cbs xs acc)"
  by (induction xs arbitrary: acc) simp_all

lemma execute_tools_nth:
  assumes "j < length tcs"
  shows "fst (execute_tools b ts cbs tcs ([], st)) ! j =
           last (fst (execute_tool b ts cbs (tcs ! j) (execute_tools b ts cbs (take j tcs) ([], st))))"
proof -
  let ?accj = "execute_tools b ts cbs (take j tcs) ([], st)"
  obtain rs where rs: "fst ?accj = [] @ rs" "list_all2 tool_result_for (take j tcs) rs"
    using fst_execute_tools[of b ts cbs "take j tcs" "([], st)"] by auto
  then have len: "length rs = j"
    using assms by (auto dest: list_all2_lengthD)
  obtain m where m: "fst (execute_tool b ts cbs (tcs ! j) ?accj) = fst ?accj @ [m]"
    using fst_execute_tool by blast
  obtain rest where rest: "fst (execute_tools b ts cbs (drop (Suc j) tcs) (execute_tool b ts cbs (tcs ! j) ?accj)) =
      fst (execute_tool b ts cbs (tcs ! j) ?accj) @ rest"
    using fst_execute_tools by blast
  have split: "tcs = take j tcs @ (tcs ! j # drop (Suc j) tcs)"
    using assms by (simp add: id_take_nth_drop)
  have "execute_tools b ts cbs tcs ([], st) =
          execute_tools b ts cbs (drop (Suc j) tcs) (execute_tool b ts cbs (tcs ! j) ?accj)"
    by (subst split) (simp add: execute_tools_append)
  then have "fst (execute_tools b ts cbs tcs ([], st)) = rs @ [m] @ rest"
    using rs m rest by simp
  then show ?thesis
    using len m by (simp add: nth_append)
qed



lemma find_tool_calls_call:
  "find_tool_calls b \<lparr> resp_content = c, tool_calls = Some [tc], invalid_tool_calls = None \<rparr> = Inr [tc]"
  by (simp add: find_tool_calls_def)

lemma parse_args_object: "parse_args b \<lparr> name = n, args = JObj fs \<rparr> = JObj fs"
  by (simp add: parse_args_def)

lemma extract_content_string: "extract_content b (JStr s) = s"
  by (simp add: extract_content_def)

lemma toolMap_single: "toolMap [t] n = (if tool_name t = n then Some t else None)"
  by (simp add: toolMap_def)

lemma toolMap_empty: "toolMap [] n = None"
  by (simp add: toolMap_def)

lemma round_threw:
  assumes "llm (messages st) (world st) = (call n, x)"
    and "toolMap ts n = Some t"
    and "invoke t (JObj []) x = (Threw thr, x')"
  shows "iteration b llm ts (Some chat_callbacks) st =
           (Next,
            st\<lparr> messages := messages st @
                   [AIMessage [] (Some [\<lparr> name = n, args = JObj [] \<rparr>]),
                    AIMessage (''Tool '' @ n @ '' error: '' @
                       (case thr of Error m \<Rightarrow> m | NonError \<Rightarrow> ''Tool execution failed'')) None],
                stream := sendToolCall (if n \<noteq> [] then n else ''unknown'') (JObj []) (stream st),
                world := x' \<rparr>)"
proof -
  have l: "llm (messages st) (world st) =
      (LlmResponse \<lparr> resp_content = JStr [], tool_calls = Some [\<lparr> name = n, args = JObj [] \<rparr>],
                     invalid_tool_calls = None \<rparr>, x)"
    using assms(1) by (simp add: call_def)
  have tm: "toolMap ts (name \<lparr> name = n, args = JObj [] \<rparr>) = Some t"
    using assms(2) by simp
  have inv: "invoke t (parse_args b \<lparr> name = n, args = JObj [] \<rparr>) (world (st\<lparr> world := x \<rparr>)) = (Threw thr, x')"
    using assms(3) by (simp add: parse_args_object)
  show ?thesis
    using iteration_tools[where llm = llm and st = st and b = b and ts = ts and cbs = "Some chat_callbacks",
        OF l find_tool_calls_call]
    by (simp add: execute_tool_threw[OF tm inv] extract_content_string parse_args_object
        handler_toolName_def)
qed


lemma round_missing:
  assumes "llm (messages st) (world st) = (call n, x)"
    and "toolMap ts n = None"
  shows "iteration b llm ts (Some chat_callbacks) st =
           (Next,
            st\<lparr> messages := messages st @
                   [AIMessage [] (Some [\<lparr> name = n, args = JObj [] \<rparr>]),
                    AIMessage (''Tool '' @ n @ '' error: Tool '' @ n @ '' not found'') None],
                stream := sendToolCall ''unknown'' (JObj []) (stream st),
                world := x \<rparr>)"
proof -
  have l: "llm (messages st) (world st) =
      (LlmResponse \<lparr> resp_content = JStr [], tool_calls = Some [\<lparr> name = n, args = JObj [] \<rparr>],
                     invalid_tool_calls = None \<rparr>, x)"
    using assms(1) by (simp add: call_def)
  have tm: "toolMap ts (name \<lparr> name = n, args = JObj [] \<rparr>) = None"
    using assms(2) by simp
  show ?thesis
    using iteration_tools[where llm = llm and st = st and b = b and ts = ts and cbs = "Some chat_callbacks",
        OF l find_tool_calls_call]
    by (simp add: execute_tool_missing[OF tm] extract_content_string parse_args_object)
qed







lemma tool_result_for_nonempty: "tool_result_for tc m \<Longrightarrow> message_content m \<noteq> []"
  by (auto simp: tool_result_for_def split: base_message.splits option.splits)

lemma iteration_Next_messages:
  assumes "iteration b llm ts cbs st = (Next, st')"
  shows "\<exists>c tcs results. messages st' = messages st @ AIMessage c (Some tcs) # results \<and>
           tcs \<noteq> [] \<and> list_all2 tool_result_for tcs results"
proof -
  from iteration_NextD[OF assms] obtain r :: response and x tcs where
    tcs: "tcs \<noteq> []"
    and st': "st' = (snd (execute_tools b ts cbs tcs ([], st\<lparr> world := x \<rparr>)))
                 \<lparr> messages := messages st @ AIMessage (extract_content b (resp_content r)) (Some tcs) #
                                  fst (execute_tools b ts cbs tcs ([], st\<lparr> world := x \<rparr>)) \<rparr>"
    by blast
  obtain rs where rs: "fst (execute_tools b ts cbs tcs ([], st\<lparr> world := x \<rparr>)) = [] @ rs"
    "list_all2 tool_result_for tcs rs"
    using fst_execute_tools[of b ts cbs tcs "([], st\<lparr> world := x \<rparr>)"] by auto
  show ?thesis
    using st' tcs rs by auto
qed

lemma last_after_tool_round:
  assumes "iteration b llm ts cbs st = (Next, st')"
  shows "messages st' \<noteq> [] \<and> message_content (last (messages st')) \<noteq> []"
proof -
  obtain c tcs results where m: "messages st' = messages st @ AIMessage c (Some tcs) # results"
    and tcs: "tcs \<noteq> []" and rs: "list_all2 tool_result_for tcs results"
    using iteration_Next_messages[OF assms] by blast
  from tcs rs have ne: "results \<noteq> []" by (auto simp: list_all2_Cons1 neq_Nil_conv)
  from rs have "tool_result_for (last tcs) (last results)"
    using tcs ne by (simp add: last_conv_nth list_all2_conv_all_nth)
  then have "message_content (last results) \<noteq> []" by (rule tool_result_for_nonempty)
  with m ne show ?thesis by simp
qed

lemma max_iterations_reached_after_round:
  assumes "iteration b llm ts cbs0 st1 = (Next, st)"
  shows "max_iterations_reached cbs st =
           (message_content (last (messages st)), stream_text cbs (message_content (last (messages st))) st)"
  using last_after_tool_round[OF assms]
  by (cases "messages st") (simp_all add: max_iterations_reached_def Let_def)


lemma repeating_round_missing:
  assumes "toolMap ts n = None"
  shows "iteration b (repeating_llm (call n)) ts (Some chat_callbacks) st =
           (Next, tool_round_effect n ''unknown'' (''Tool '' @ n @ '' error: Tool '' @ n @ '' not found'') None st)"
proof -
  have l: "repeating_llm (call n) (messages st) (world st) = (call n, world st @ [messages st])"
    by (simp add: repeating_llm_def)
  show ?thesis
    using round_missing[where llm = "repeating_llm (call n)" and st = st and b = b, OF l assms]
    by (simp add: tool_round_effect_def)
qed


lemma repeating_round_threw:
  assumes "toolMap ts n = Some t" and "n \<noteq> []" and "\<And>a w. invoke t a w = (Threw (Error m), w)"
  shows "iteration b (repeating_llm (call n)) ts (Some chat_callbacks) st =
           (Next, tool_round_effect n n (''Tool '' @ n @ '' error: '' @ m) None st)"
proof -
  have l: "repeating_llm (call n) (messages st) (world st) = (call n, world st @ [messages st])"
    by (simp add: repeating_llm_def)
  show ?thesis
    using round_threw[where llm = "repeating_llm (call n)" and st = st and b = b, OF l assms(1) assms(3)]
      assms(2)
    by (simp add: tool_round_effect_def)
qed

lemma after_rounds_funpow:
  assumes "\<And>st. iteration b llm ts cbs st = (Next, f st)"
  shows "after_rounds b llm ts cbs k st = Some ((f ^^ k) st)"
  by (induction k arbitrary: st) (simp_all add: assms funpow_swap1)


lemma last_tool_round_effect:
  "message_content (last (messages (tool_round_effect n shown recorded out st))) = recorded"
  by (simp add: tool_round_effect_def)

lemma funpow_maxIterations: "(f ^^ maxIterations) st = f ((f ^^ 4) st)"
  by (simp add: maxIterations_def eval_nat_numeral)


lemma run_loop_unfold_round:
  assumes "i < maxIterations"
  shows "run_loop b llm ts cbs i st =
           (case iteration b llm ts cbs st of
              (Next, st'') \<Rightarrow> run_loop b llm ts cbs (Suc i) st''
            | (Return out, st'') \<Rightarrow> (Inr out, Suc i, st'')
            | (Raise err, st'') \<Rightarrow> (Inl err, Suc i, st''))"
  using assms by (subst run_loop.simps) (simp split: prod.splits step.splits)

lemma tool_round_continues:
  assumes l: "llm (messages st) (world st) = (LlmResponse r, x)"
    and ftc: "find_tool_calls b r = Inr tcs"
    and j: "j < length tcs"
    and m: "fst (execute_tool b ts cbs (tcs ! j) (execute_tools b ts cbs (take j tcs) ([], st\<lparr> world := x \<rparr>))) =
              fst (execute_tools b ts cbs (take j tcs) ([], st\<lparr> world := x \<rparr>)) @ [m]"
  shows "\<exists>st' results.
           iteration b llm ts cbs st = (Next, st') \<and>
           messages st' = messages st @ AIMessage (extract_content b (resp_content r)) (Some tcs) # results \<and>
           length results = length tcs \<and>
           results ! j = m \<and>
           (\<forall>i. i < maxIterations \<longrightarrow> run_loop b llm ts cbs i st = run_loop b llm ts cbs (Suc i) st') \<and>
           (\<forall>i. Suc i < maxIterations \<longrightarrow>
              run_loop b llm ts cbs i st =
                (case iteration b llm ts cbs st' of
                   (Next, st'') \<Rightarrow> run_loop b llm ts cbs (Suc (Suc i)) st''
                 | (Return out, st'') \<Rightarrow> (Inr out, Suc (Suc i), st'')
                 | (Raise err, st'') \<Rightarrow> (Inl err, Suc (Suc i), st''))) \<and>
           (\<forall>i. Suc i = maxIterations \<longrightarrow>
              run_loop b llm ts cbs i st =
                (Inr (message_content (last results)), maxIterations,
                 stream_text cbs (message_content (last results)) st'))"
proof -
  let ?res = "execute_tools b ts cbs tcs ([], st\<lparr> world := x \<rparr>)"
  let ?st' = "(snd ?res)\<lparr> messages := messages st @ AIMessage (extract_content b (resp_content r)) (Some tcs) #
                                       fst ?res \<rparr>"
  from j have ne: "tcs \<noteq> []" by auto
  have it: "iteration b llm ts cbs st = (Next, ?st')"
    by (rule iteration_tools[where llm = llm and st = st, OF l ftc ne])
  obtain rs where rs: "fst ?res = [] @ rs" "list_all2 tool_result_for tcs rs"
    using fst_execute_tools[of b ts cbs tcs "([], st\<lparr> world := x \<rparr>)"] by auto
  then have len: "length (fst ?res) = length tcs"
    by (auto dest: list_all2_lengthD)
  have nth: "fst ?res ! j = m"
    using execute_tools_nth[OF j, of b ts cbs "st\<lparr> world := x \<rparr>"] m by simp
  have lastm: "last (messages ?st') = last (fst ?res)"
    using len ne by (cases "fst ?res") auto
  have nxt: "\<forall>i. i < maxIterations \<longrightarrow> run_loop b llm ts cbs i st = run_loop b llm ts cbs (Suc i) ?st'"
    using it by (simp add: run_loop_Next)
  have more: "\<forall>i. Suc i < maxIterations \<longrightarrow>
              run_loop b llm ts cbs i st =
                (case iteration b llm ts cbs ?st' of
                   (Next, st'') \<Rightarrow> run_loop b llm ts cbs (Suc (Suc i)) st''
                 | (Return out, st'') \<Rightarrow> (Inr out, Suc (Suc i), st'')
                 | (Raise err, st'') \<Rightarrow> (Inl err, Suc (Suc i), st''))"
  proof (intro allI impI)
    fix i assume i: "Suc i < maxIterations"
    then have "run_loop b llm ts cbs i st = run_loop b llm ts cbs (Suc i) ?st'"
      using nxt by simp
    also have "\<dots> = (case iteration b llm ts cbs ?st' of
                   (Next, st'') \<Rightarrow> run_loop b llm ts cbs (Suc (Suc i)) st''
                 | (Return out, st'') \<Rightarrow> (Inr out, Suc (Suc i), st'')
                 | (Raise err, st'') \<Rightarrow> (Inl err, Suc (Suc i), st''))"
      by (rule run_loop_unfold_round[OF i])
    finally show "run_loop b llm ts cbs i st =
                (case iteration b llm ts cbs ?st' of
                   (Next, st'') \<Rightarrow> run_loop b llm ts cbs (Suc (Suc i)) st''
                 | (Return out, st'') \<Rightarrow> (Inr out, Suc (Suc i), st'')
                 | (Raise err, st'') \<Rightarrow> (Inl err, Suc (Suc i), st''))" .
  qed
  have fin: "\<forall>i. Suc i = maxIterations \<longrightarrow>
              run_loop b llm ts cbs i st =
                (Inr (message_content (last (fst ?res))), maxIterations,
                 stream_text cbs (message_content (last (fst ?res))) ?st')"
  proof (intro allI impI)
    fix i assume i: "Suc i = maxIterations"
    then have "run_loop b llm ts cbs i st = run_loop b llm ts cbs maxIterations ?st'"
      using nxt by auto
    then show "run_loop b llm ts cbs i st =
                (Inr (message_content (last (fst ?res))), maxIterations,
                 stream_text cbs (message_content (last (fst ?res))) ?st')"
      using max_iterations_reached_after_round[OF it, of cbs] lastm
      by (simp add: run_loop_exhausted)
  qed
  have msgs: "messages ?st' = messages st @ AIMessage (extract_content b (resp_content r)) (Some tcs) # fst ?res"
    by simp
  show ?thesis
    using it msgs len nth nxt more fin by blast
qed

lemma repeating_run_budget:
  assumes "\<And>st. iteration b llm ts (Some chat_callbacks) st = (Next, tool_round_effect n shown recorded out st)"
  shows "run_loop b llm ts (Some chat_callbacks) 0 st0 =
           (Inr recorded, maxIterations,
            stream_text (Some chat_callbacks) recorded
              ((tool_round_effect n shown recorded out ^^ maxIterations) st0))"
proof -
  let ?f = "tool_round_effect n shown recorded out"
  have rounds: "after_rounds b llm ts (Some chat_callbacks) maxIterations st0 = Some ((?f ^^ maxIterations) st0)"
    by (rule after_rounds_funpow[OF assms])
  have lastround: "iteration b llm ts (Some chat_callbacks) ((?f ^^ 4) st0) = (Next, (?f ^^ maxIterations) st0)"
    by (simp add: assms funpow_maxIterations)
  show ?thesis
    using run_loop_budget[OF rounds] max_iterations_reached_after_round[OF lastround, of "Some chat_callbacks"]
    by (simp add: funpow_maxIterations last_tool_round_effect)
qed



section \<open>Request validation\<close>

lemma safeParse_rejects:
  assumes "get_prop body ''message'' = JStr [] \<or> get_prop body ''message'' = JUndefined"
  shows "\<exists>errs. errs \<noteq> [] \<and> safeParse body = Inl errs"
proof (cases body)
  case (JObj fs)
  from assms have "message_issues (get_prop body ''message'') \<noteq> []"
    by (auto simp: message_issues_def)
  with JObj show ?thesis by (simp add: safeParse_def Let_def)
qed (simp_all add: safeParse_def)

lemma safeParse_ask: "m \<noteq> [] \<Longrightarrow> safeParse (ask m) = Inr \<lparr> message = m, sessionId = None \<rparr>"
  by (simp add: safeParse_def ask_def message_issues_def sessionId_issues_def Let_def)

text \<open>
  Claim C9. A request body whose \<^verbatim>\<open>message\<close> is the empty string or is missing is
  answered with status 400 and the body \<^verbatim>\<open>{ error: 'Invalid request', details }\<close> with at
  least one issue; no session is touched, no header is set, no frame is written and
  the stream is not ended.
\<close>

theorem empty_message_rejected:
  assumes "get_prop body ''message'' = JStr [] \<or> get_prop body ''message'' = JUndefined"
  shows "memory (chatRoute e svc body srv) = memory srv \<and>
         outside (chatRoute e svc body srv) = outside srv \<and>
         headers (res (chatRoute e svc body srv)) = headers (res srv) \<and>
         wire (res (chatRoute e svc body srv)) = wire (res srv) \<and>
         ended (res (chatRoute e svc body srv)) = ended (res srv) \<and>
         (\<exists>errs. errs \<noteq> [] \<and>
            sent (res (chatRoute e svc body srv)) =
              Some (400, \<lparr> error = ''Invalid request'', details = errs \<rparr>))"
proof -
  obtain errs where "errs \<noteq> []" "safeParse body = Inl errs"
    using safeParse_rejects[OF assms] by blast
  then show ?thesis by (simp add: chatRoute_def)
qed

theorem empty_message_rejected_witness:
  "get_prop (ask []) ''message'' = JStr [] \<and>
   memory (chatRoute gemini_env (scripted_services [answer ''4''] []) (ask []) fresh_server) = Map.empty \<and>
   wire (res (chatRoute gemini_env (scripted_services [answer ''4''] []) (ask []) fresh_server)) = [] \<and>
   headers (res (chatRoute gemini_env (scripted_services [answer ''4''] []) (ask []) fresh_server)) = [] \<and>
   (\<exists>errs. errs \<noteq> [] \<and>
      sent (res (chatRoute gemini_env (scripted_services [answer ''4''] []) (ask []) fresh_server)) =
        Some (400, \<lparr> error = ''Invalid request'', details = errs \<rparr>))"
proof -
  have h: "get_prop (ask []) ''message'' = JStr [] \<or> get_prop (ask []) ''message'' = JUndefined"
    by (simp add: ask_def)
  show ?thesis
    using empty_message_rejected[OF h, of gemini_env "scripted_services [answer ''4''] []" fresh_server]
    by (simp add: ask_def fresh_server_def fresh_reply_def)
qed

section \<open>The closing frame\<close>

text \<open>
  Claim C1. For a request that passes validation, on a reply that holds no
  \<^verbatim>\<open>done\<close> frame yet, the wire ends with a \<^verbatim>\<open>done\<close> frame, holds exactly one such frame, and
  the stream is ended; this holds for both providers, whether the executor returned
  or threw and whether the agent could be created.
\<close>

theorem one_done_frame_last:
  assumes "safeParse body = Inr req"
    and "filter is_done (wire (res srv)) = []"
  shows "wire (res (chatRoute e svc body srv)) \<noteq> [] \<and>
         is_done (last (wire (res (chatRoute e svc body srv)))) \<and>
         length (filter is_done (wire (res (chatRoute e svc body srv)))) = 1 \<and>
         ended (res (chatRoute e svc body srv))"
proof -
  obtain r' where r': "res (chatRoute e svc body srv) = sendDone r'"
    "filter is_done (wire r') = filter is_done (wire (res srv))"
    using chatRoute_valid_shape[OF assms(1)] by blast
  show ?thesis
    using r' assms(2) by (simp add: filter_done_sendDone ended_sendDone wire_sendDone is_done_def)
qed

theorem one_done_frame_last_witness:
  "safeParse (ask ''2 + 2'') = Inr \<lparr> message = ''2 + 2'', sessionId = None \<rparr> \<and>
   filter is_done (wire (res fresh_server)) = [] \<and>
   is_done (last (wire (res (chatRoute gemini_env (scripted_services [answer ''4''] []) (ask ''2 + 2'') fresh_server)))) \<and>
   length (filter is_done
     (wire (res (chatRoute gemini_env (scripted_services [answer ''4''] []) (ask ''2 + 2'') fresh_server)))) = 1"
proof -
  have h1: "safeParse (ask ''2 + 2'') = Inr \<lparr> message = ''2 + 2'', sessionId = None \<rparr>"
    by (simp add: safeParse_ask)
  have h2: "filter is_done (wire (res fresh_server)) = []"
    by (simp add: fresh_server_def fresh_reply_def)
  show ?thesis
    using one_done_frame_last[OF h1 h2, of gemini_env "scripted_services [answer ''4''] []"] h1 h2
    by simp
qed




text \<open>
  Claim C2, as stated, fails: when the completion call of the manual strategy throws,
  the only frame on the wire is \<^verbatim>\<open>done\<close> (no \<^verbatim>\<open>error\<close> frame), and an assistant message
  holding the fixed apology is committed after the user message.
\<close>

theorem completion_failure_counterexample:
  "map event (wire (res (chatRoute gemini_env (scripted_services [LlmThrows (Error ''fetch failed'')] [])
                           (ask ''hi'') fresh_server))) = [''done''] \<and>
   getHistory (memory (chatRoute gemini_env (scripted_services [LlmThrows (Error ''fetch failed'')] [])
                         (ask ''hi'') fresh_server)) ''default'' =
     [\<lparr> role = User, content = ''hi'' \<rparr>,
      \<lparr> role = Assistant,
        content = ''I encountered an error processing your request. Please try again.'' \<rparr>]"
proof -
  let ?svc = "scripted_services [LlmThrows (Error ''fetch failed'')] []"
  let ?req = "\<lparr> message = ''hi'', sessionId = None \<rparr>"
  have valid: "safeParse (ask ''hi'') = Inr ?req" by (simp add: safeParse_ask)
  have r0: "after_rounds (runtime ?svc) (llmWithTools ?svc) (tools ?svc) (Some chat_callbacks) 0
              (turn_start ?req fresh_server) = Some (turn_start ?req fresh_server)"
    by simp
  have k: "0 < maxIterations" by (simp add: maxIterations_def)
  note turn = gemini_turn_llm_throws[OF valid createAgent_gemini_env r0 k scripted_first_round]
  show ?thesis
    unfolding turn
    by (simp add: wire_sendDone turn_start_fresh wire_set_sse_headers wire_fresh_reply
        getHistory_addMessage getHistory_fresh session_of_default)
qed

text \<open>
  Claim C2, amended. In the manual strategy a completion call that throws, or that
  yields no response, is caught inside the loop, after any number of tool rounds
  within the budget: no \<^verbatim>\<open>error\<close> frame is written, the executor returns a fixed text
  (\<^verbatim>\<open>I encountered an error processing your request. Please try again.\<close>, respectively
  \<^verbatim>\<open>I did not receive a response. Please try again.\<close>), that text is committed as the
  assistant message after the user message, and \<^verbatim>\<open>done\<close> is the next frame. Only when
  the executor itself throws (either provider) does the client receive an \<^verbatim>\<open>error\<close>
  frame followed by \<^verbatim>\<open>done\<close>, with the user message but no assistant message committed.
\<close>

theorem completion_failure_outcomes:
  assumes "safeParse body = Inr req"
  shows "(createAgent e = Inr Gemini \<and>
          after_rounds (runtime svc) (llmWithTools svc) (tools svc) (Some chat_callbacks) k
            (turn_start req srv) = Some st \<and>
          k < maxIterations \<and>
          llmWithTools svc (messages st) (world st) = (LlmThrows err, x) \<longrightarrow>
            getHistory (memory (chatRoute e svc body srv)) (session_of req) =
              getHistory (memory srv) (session_of req) @
                [\<lparr> role = User, content = message req \<rparr>,
                 \<lparr> role = Assistant,
                   content = ''I encountered an error processing your request. Please try again.'' \<rparr>] \<and>
            frames_of ''error'' (res (chatRoute e svc body srv)) = frames_of ''error'' (res srv) \<and>
            wire (res (chatRoute e svc body srv)) = wire (stream st) @ [\<lparr> event = ''done'', data = JObj [] \<rparr>]) \<and>
         (createAgent e = Inr Gemini \<and>
          after_rounds (runtime svc) (llmWithTools svc) (tools svc) (Some chat_callbacks) k
            (turn_start req srv) = Some st \<and>
          k < maxIterations \<and>
          llmWithTools svc (messages st) (world st) = (LlmFalsy, x) \<longrightarrow>
            getHistory (memory (chatRoute e svc body srv)) (session_of req) =
              getHistory (memory srv) (session_of req) @
                [\<lparr> role = User, content = message req \<rparr>,
                 \<lparr> role = Assistant, content = ''I did not receive a response. Please try again.'' \<rparr>] \<and>
            frames_of ''error'' (res (chatRoute e svc body srv)) = frames_of ''error'' (res srv) \<and>
            wire (res (chatRoute e svc body srv)) = wire (stream st) @ [\<lparr> event = ''done'', data = JObj [] \<rparr>]) \<and>
         (createAgent e = Inr p \<and>
          executor_invoke p svc (message req)
            (getLangChainMessages
               (addMessage (session_of req) \<lparr> role = User, content = message req \<rparr> (memory srv))
               (session_of req))
            (Some chat_callbacks) (set_sse_headers (res srv)) (outside srv) = (Inl thr, r', x') \<longrightarrow>
            getHistory (memory (chatRoute e svc body srv)) (session_of req) =
              getHistory (memory srv) (session_of req) @ [\<lparr> role = User, content = message req \<rparr>] \<and>
            wire (res (chatRoute e svc body srv)) =
              wire r' @
                [\<lparr> event = ''error'',
                   data = JObj [(''error'',
                     JStr (case thr of Error m \<Rightarrow> m | NonError \<Rightarrow> ''Unknown error occurred''))] \<rparr>,
                 \<lparr> event = ''done'', data = JObj [] \<rparr>])"
proof (intro conjI impI)
  assume h: "createAgent e = Inr Gemini \<and>
          after_rounds (runtime svc) (llmWithTools svc) (tools svc) (Some chat_callbacks) k
            (turn_start req srv) = Some st \<and>
          k < maxIterations \<and>
          llmWithTools svc (messages st) (world st) = (LlmThrows err, x)"
  then have g: "createAgent e = Inr Gemini"
    and rounds: "after_rounds (runtime svc) (llmWithTools svc) (tools svc) (Some chat_callbacks) k
            (turn_start req srv) = Some st"
    and k: "k < maxIterations"
    and l: "llmWithTools svc (messages st) (world st) = (LlmThrows err, x)"
    by simp_all
  have turn: "chatRoute e svc body srv =
           \<lparr> memory = addMessage (session_of req)
                        \<lparr> role = Assistant,
                          content = ''I encountered an error processing your request. Please try again.'' \<rparr>
                        (addMessage (session_of req) \<lparr> role = User, content = message req \<rparr> (memory srv)),
             res = sendDone (stream st),
             outside = x \<rparr>"
    by (rule gemini_turn_llm_throws[OF assms g rounds k l])
  have errs: "frames_of ''error'' (stream st) = frames_of ''error'' (res srv)"
    using frames_of_after_rounds[OF rounds, of "''error''"]
    by (simp add: turn_start_simps frames_of_set_sse_headers)
  show "getHistory (memory (chatRoute e svc body srv)) (session_of req) =
              getHistory (memory srv) (session_of req) @
                [\<lparr> role = User, content = message req \<rparr>,
                 \<lparr> role = Assistant,
                   content = ''I encountered an error processing your request. Please try again.'' \<rparr>]"
    unfolding turn by (simp add: getHistory_addMessage)
  show "frames_of ''error'' (res (chatRoute e svc body srv)) = frames_of ''error'' (res srv)"
    unfolding turn by (simp add: frames_of_sendDone errs)
  show "wire (res (chatRoute e svc body srv)) = wire (stream st) @ [\<lparr> event = ''done'', data = JObj [] \<rparr>]"
    unfolding turn by (simp add: wire_sendDone)
next
  assume h: "createAgent e = Inr Gemini \<and>
          after_rounds (runtime svc) (llmWithTools svc) (tools svc) (Some chat_callbacks) k
            (turn_start req srv) = Some st \<and>
          k < maxIterations \<and>
          llmWithTools svc (messages st) (world st) = (LlmFalsy, x)"
  then have g: "createAgent e = Inr Gemini"
    and rounds: "after_rounds (runtime svc) (llmWithTools svc) (tools svc) (Some chat_callbacks) k
            (turn_start req srv) = Some st"
    and k: "k < maxIterations"
    and l: "llmWithTools svc (messages st) (world st) = (LlmFalsy, x)"
    by simp_all
  have turn: "chatRoute e svc body srv =
           \<lparr> memory = addMessage (session_of req)
                        \<lparr> role = Assistant, content = ''I did not receive a response. Please try again.'' \<rparr>
                        (addMessage (session_of req) \<lparr> role = User, content = message req \<rparr> (memory srv)),
             res = sendDone (stream st),
             outside = x \<rparr>"
    by (rule gemini_turn_llm_falsy[OF assms g rounds k l])
  have errs: "frames_of ''error'' (stream st) = frames_of ''error'' (res srv)"
    using frames_of_after_rounds[OF rounds, of "''error''"]
    by (simp add: turn_start_simps frames_of_set_sse_headers)
  show "getHistory (memory (chatRoute e svc body srv)) (session_of req) =
              getHistory (memory srv) (session_of req) @
                [\<lparr> role = User, content = message req \<rparr>,
                 \<lparr> role = Assistant, content = ''I did not receive a response. Please try again.'' \<rparr>]"
    unfolding turn by (simp add: getHistory_addMessage)
  show "frames_of ''error'' (res (chatRoute e svc body srv)) = frames_of ''error'' (res srv)"
    unfolding turn by (simp add: frames_of_sendDone errs)
  show "wire (res (chatRoute e svc body srv)) = wire (stream st) @ [\<lparr> event = ''done'', data = JObj [] \<rparr>]"
    unfolding turn by (simp add: wire_sendDone)
next
  assume h: "createAgent e = Inr p \<and>
          executor_invoke p svc (message req)
            (getLangChainMessages
               (addMessage (session_of req) \<lparr> role = User, content = message req \<rparr> (memory srv))
               (session_of req))
            (Some chat_callbacks) (set_sse_headers (res srv)) (outside srv) = (Inl thr, r', x')"
  have turn: "chatRoute e svc body srv =
           \<lparr> memory = addMessage (session_of req) \<lparr> role = User, content = message req \<rparr> (memory srv),
             res = sendDone (sendError (case thr of Error m \<Rightarrow> m | NonError \<Rightarrow> ''Unknown error occurred'') r'),
             outside = x' \<rparr>"
    using h chatRoute_executor_thrown[OF assms, of e p svc srv thr r' x'] by simp
  show "getHistory (memory (chatRoute e svc body srv)) (session_of req) =
              getHistory (memory srv) (session_of req) @ [\<lparr> role = User, content = message req \<rparr>]"
    unfolding turn by (simp add: getHistory_addMessage)
  show "wire (res (chatRoute e svc body srv)) =
              wire r' @
                [\<lparr> event = ''error'',
                   data = JObj [(''error'',
                     JStr (case thr of Error m \<Rightarrow> m | NonError \<Rightarrow> ''Unknown error occurred''))] \<rparr>,
                 \<lparr> event = ''done'', data = JObj [] \<rparr>]"
    unfolding turn by (simp add: wire_sendDone wire_sendError)
qed

theorem completion_failure_outcomes_witness:
  "safeParse (ask ''hi'') = Inr \<lparr> message = ''hi'', sessionId = None \<rparr> \<and>
   getHistory (memory (chatRoute gemini_env (scripted_services [LlmThrows (Error ''fetch failed'')] [])
                         (ask ''hi'') fresh_server)) ''default'' =
     [\<lparr> role = User, content = ''hi'' \<rparr>,
      \<lparr> role = Assistant,
        content = ''I encountered an error processing your request. Please try again.'' \<rparr>] \<and>
   frames_of ''error'' (res (chatRoute gemini_env (scripted_services [LlmThrows (Error ''fetch failed'')] [])
                              (ask ''hi'') fresh_server)) = [] \<and>
   getHistory (memory (chatRoute gemini_env (scripted_services [LlmFalsy] []) (ask ''hi'') fresh_server))
     ''default'' =
     [\<lparr> role = User, content = ''hi'' \<rparr>,
      \<lparr> role = Assistant, content = ''I did not receive a response. Please try again.'' \<rparr>] \<and>
   getHistory (memory (chatRoute openai_env (scripted_services [] []) (ask ''hi'') fresh_server)) ''default'' =
     [\<lparr> role = User, content = ''hi'' \<rparr>] \<and>
   wire (res (chatRoute openai_env (scripted_services [] []) (ask ''hi'') fresh_server)) =
     [\<lparr> event = ''error'', data = JObj [(''error'', JStr ''not configured'')] \<rparr>,
      \<lparr> event = ''done'', data = JObj [] \<rparr>]"
proof -
  let ?req = "\<lparr> message = ''hi'', sessionId = None \<rparr>"
  let ?st = "turn_start ?req fresh_server"
  let ?svc1 = "scripted_services [LlmThrows (Error ''fetch failed'')] []"
  let ?svc2 = "scripted_services [LlmFalsy] []"
  let ?svc3 = "scripted_services [] []"
  have valid: "safeParse (ask ''hi'') = Inr ?req" by (simp add: safeParse_ask)
  have k: "0 < maxIterations" by (simp add: maxIterations_def)
  have r1: "after_rounds (runtime ?svc1) (llmWithTools ?svc1) (tools ?svc1) (Some chat_callbacks) 0 ?st = Some ?st"
    by simp
  have r2: "after_rounds (runtime ?svc2) (llmWithTools ?svc2) (tools ?svc2) (Some chat_callbacks) 0 ?st = Some ?st"
    by simp
  have l1: "llmWithTools ?svc1 (messages ?st) (world ?st) =
              (LlmThrows (Error ''fetch failed''), [[HumanMessage ''hi'', HumanMessage ''hi'']])"
    by (rule scripted_first_round)
  have l2: "llmWithTools ?svc2 (messages ?st) (world ?st) =
              (LlmFalsy, [[HumanMessage ''hi'', HumanMessage ''hi'']])"
    by (rule scripted_first_round)
  have ex: "executor_invoke OpenAI ?svc3 (message ?req)
              (getLangChainMessages
                 (addMessage (session_of ?req) \<lparr> role = User, content = message ?req \<rparr> (memory fresh_server))
                 (session_of ?req))
              (Some chat_callbacks) (set_sse_headers (res fresh_server)) (outside fresh_server) =
            (Inl (Error ''not configured''), set_sse_headers fresh_reply, [])"
    by (simp add: executor_invoke_def scripted_services_def no_agent_def fresh_server_simps)
  note t1 = completion_failure_outcomes[OF valid, where e = gemini_env and svc = ?svc1 and srv = fresh_server
      and k = 0 and st = ?st and err = "Error ''fetch failed''"
      and x = "[[HumanMessage ''hi'', HumanMessage ''hi'']]", THEN conjunct1, rule_format,
      OF conjI[OF createAgent_gemini_env conjI[OF r1 conjI[OF k l1]]]]
  note t2 = completion_failure_outcomes[OF valid, where e = gemini_env and svc = ?svc2 and srv = fresh_server
      and k = 0 and st = ?st
      and x = "[[HumanMessage ''hi'', HumanMessage ''hi'']]", THEN conjunct2, THEN conjunct1, rule_format,
      OF conjI[OF createAgent_gemini_env conjI[OF r2 conjI[OF k l2]]]]
  note t3 = completion_failure_outcomes[OF valid, where e = openai_env and svc = ?svc3 and srv = fresh_server
      and p = OpenAI and thr = "Error ''not configured''" and r' = "set_sse_headers fresh_reply"
      and x' = "[]", THEN conjunct2, THEN conjunct2, rule_format,
      OF conjI[OF createAgent_openai_env ex]]
  show ?thesis
    using valid t1 t2 t3
    by (simp add: getHistory_empty session_of_default frames_of_def fresh_server_simps
        turn_start_fresh wire_set_sse_headers wire_fresh_reply)
qed









text \<open>
  Claim C5, as stated, fails in the fifth round: the engine below asks for the
  throwing tool in every round; the fifth failure is recorded as the last message of
  the working sequence, but that sequence is never sent to the engine (it was asked
  five times, each time with a shorter sequence), and the error text is returned as
  the turn's answer.
\<close>

theorem fifth_round_failure_counterexample:
  "fst (gemini_invoke plain_js (repeating_llm (call ''boom'')) [boom_tool] ''go'' []
          (Some chat_callbacks) fresh_reply []) = Inr ''Tool boom error: kaput'' \<and>
   last (messages (snd (snd (gemini_invoke plain_js (repeating_llm (call ''boom'')) [boom_tool] ''go'' []
          (Some chat_callbacks) fresh_reply [])))) = AIMessage ''Tool boom error: kaput'' None \<and>
   length (world (snd (snd (gemini_invoke plain_js (repeating_llm (call ''boom'')) [boom_tool] ''go'' []
          (Some chat_callbacks) fresh_reply [])))) = 5 \<and>
   messages (snd (snd (gemini_invoke plain_js (repeating_llm (call ''boom'')) [boom_tool] ''go'' []
          (Some chat_callbacks) fresh_reply []))) \<notin>
     set (world (snd (snd (gemini_invoke plain_js (repeating_llm (call ''boom'')) [boom_tool] ''go'' []
          (Some chat_callbacks) fresh_reply []))))"
proof -
  have tm: "toolMap [boom_tool] ''boom'' = Some boom_tool"
    by (simp add: toolMap_single boom_tool_def)
  have step: "\<And>st. iteration plain_js (repeating_llm (call ''boom'')) [boom_tool] (Some chat_callbacks) st =
      (Next, tool_round_effect ''boom'' ''boom'' ''Tool boom error: kaput'' None st)"
    using repeating_round_threw[where ts = "[boom_tool]" and n = "''boom''" and t = boom_tool
        and m = "''kaput''" and b = plain_js, OF tm]
    by (simp add: boom_tool_def)
  show ?thesis
    unfolding gemini_invoke_def repeating_run_budget[OF step]
    by (simp add: maxIterations_def eval_nat_numeral tool_round_effect_def)
qed

text \<open>
  Claim C5, amended. When a registered tool throws during a round, the turn is not
  aborted: the round ends by going back to the loop head, and the working sequence
  gains the assistant message recording the calls and one result per call, the result
  of the failed call being \<^verbatim>\<open>Tool <name> error: <message>\<close> (the message of the thrown
  \<^verbatim>\<open>Error\<close>, or \<^verbatim>\<open>Tool execution failed\<close> for any other thrown value). If fewer than five
  rounds have then run, the next round is run on that sequence, which starts by
  requesting a completion for it; if this was the fifth round the loop ends and
  returns the content of the last tool result as the answer.
\<close>

theorem throwing_tool_is_fed_back:
  assumes "llm (messages st) (world st) = (LlmResponse r, x)"
    and "find_tool_calls b r = Inr tcs"
    and "j < length tcs"
    and "execute_tools b ts cbs (take j tcs) ([], st\<lparr> world := x \<rparr>) = (rs, stj)"
    and "toolMap ts (name (tcs ! j)) = Some t"
    and "invoke t (parse_args b (tcs ! j)) (world stj) = (Threw thr, x')"
  shows "\<exists>st' results.
           iteration b llm ts cbs st = (Next, st') \<and>
           messages st' = messages st @ AIMessage (extract_content b (resp_content r)) (Some tcs) # results \<and>
           length results = length tcs \<and>
           results ! j =
             AIMessage (''Tool '' @ name (tcs ! j) @ '' error: '' @
                        (case thr of Error m \<Rightarrow> m | NonError \<Rightarrow> ''Tool execution failed'')) None \<and>
           (\<forall>i. i < maxIterations \<longrightarrow> run_loop b llm ts cbs i st = run_loop b llm ts cbs (Suc i) st') \<and>
           (\<forall>i. Suc i < maxIterations \<longrightarrow>
              run_loop b llm ts cbs i st =
                (case iteration b llm ts cbs st' of
                   (Next, st'') \<Rightarrow> run_loop b llm ts cbs (Suc (Suc i)) st''
                 | (Return out, st'') \<Rightarrow> (Inr out, Suc (Suc i), st'')
                 | (Raise err, st'') \<Rightarrow> (Inl err, Suc (Suc i), st''))) \<and>
           (\<forall>i. Suc i = maxIterations \<longrightarrow>
              run_loop b llm ts cbs i st =
                (Inr (message_content (last results)), maxIterations,
                 stream_text cbs (message_content (last results)) st'))"
proof -
  have inv: "invoke t (parse_args b (tcs ! j)) (world (snd (rs, stj))) = (Threw thr, x')"
    using assms(6) by simp
  have "fst (execute_tool b ts cbs (tcs ! j) (execute_tools b ts cbs (take j tcs) ([], st\<lparr> world := x \<rparr>))) =
          fst (execute_tools b ts cbs (take j tcs) ([], st\<lparr> world := x \<rparr>)) @
            [AIMessage (''Tool '' @ name (tcs ! j) @ '' error: '' @
                        (case thr of Error m \<Rightarrow> m | NonError \<Rightarrow> ''Tool execution failed'')) None]"
    using fst_execute_tool_threw[OF assms(5) inv, where cbs = cbs] by (simp add: assms(4))
  from tool_round_continues[where llm = llm and st = st, OF assms(1,2,3) this] show ?thesis .
qed

theorem throwing_tool_is_fed_back_witness:
  "(\<exists>st' results.
      iteration plain_js (scripted_llm [call ''boom'', answer ''sorry'']) [boom_tool] (Some chat_callbacks)
        \<lparr> messages = [HumanMessage ''go''], stream = fresh_reply, world = [] \<rparr> = (Next, st') \<and>
      messages st' =
        [HumanMessage ''go'', AIMessage [] (Some [\<lparr> name = ''boom'', args = JObj [] \<rparr>])] @ results \<and>
      length results = 1 \<and>
      results ! 0 = AIMessage ''Tool boom error: kaput'' None \<and>
      run_loop plain_js (scripted_llm [call ''boom'', answer ''sorry'']) [boom_tool] (Some chat_callbacks) 0
        \<lparr> messages = [HumanMessage ''go''], stream = fresh_reply, world = [] \<rparr> =
      run_loop plain_js (scripted_llm [call ''boom'', answer ''sorry'']) [boom_tool] (Some chat_callbacks) (Suc 0)
        st')"
proof -
  let ?llm = "scripted_llm [call ''boom'', answer ''sorry'']"
  let ?st = "\<lparr> messages = [HumanMessage ''go''], stream = fresh_reply, world = [] :: base_message list list \<rparr>"
  let ?r = "\<lparr> resp_content = JStr [], tool_calls = Some [\<lparr> name = ''boom'', args = JObj [] \<rparr>],
              invalid_tool_calls = None \<rparr>"
  let ?tcs = "[\<lparr> name = ''boom'', args = JObj [] \<rparr>]"
  have l: "?llm (messages ?st) (world ?st) = (LlmResponse ?r, [[HumanMessage ''go'']])"
    by (simp add: scripted_llm_def call_def)
  have ftc: "find_tool_calls plain_js ?r = Inr ?tcs" by (rule find_tool_calls_call)
  have j: "0 < length ?tcs" by simp
  have before: "execute_tools plain_js [boom_tool] (Some chat_callbacks) (take 0 ?tcs)
      ([], ?st\<lparr> world := [[HumanMessage ''go'']] \<rparr>) = ([], ?st\<lparr> world := [[HumanMessage ''go'']] \<rparr>)"
    by simp
  have tm: "toolMap [boom_tool] (name (?tcs ! 0)) = Some boom_tool"
    by (simp add: toolMap_single boom_tool_def)
  have inv: "invoke boom_tool (parse_args plain_js (?tcs ! 0)) (world (?st\<lparr> world := [[HumanMessage ''go'']] \<rparr>)) =
      (Threw (Error ''kaput''), [[HumanMessage ''go'']])"
    by (simp add: boom_tool_def)
  have k: "0 < maxIterations" by (simp add: maxIterations_def)
  from throwing_tool_is_fed_back[where llm = ?llm and st = ?st and b = plain_js and ts = "[boom_tool]"
      and cbs = "Some chat_callbacks", OF l ftc j before tm inv]
  obtain st' results where
    "iteration plain_js ?llm [boom_tool] (Some chat_callbacks) ?st = (Next, st')"
    "messages st' = messages ?st @ AIMessage (extract_content plain_js (resp_content ?r)) (Some ?tcs) # results"
    "length results = length ?tcs"
    "results ! 0 = AIMessage (''Tool '' @ name (?tcs ! 0) @ '' error: '' @ ''kaput'') None"
    "\<forall>i. i < maxIterations \<longrightarrow>
       run_loop plain_js ?llm [boom_tool] (Some chat_callbacks) i ?st =
       run_loop plain_js ?llm [boom_tool] (Some chat_callbacks) (Suc i) st'"
    by auto
  then show ?thesis
    using k by (intro exI[of _ st'] exI[of _ results]) (simp add: extract_content_string)
qed

text \<open>
  Claim C10, as stated, fails in the fifth round: the engine below asks in every round
  for a tool that is not registered; after the fifth round there is neither a next
  tool call nor a next completion round, the loop ends, and the synthesized error text
  is returned as the turn's answer; the sequence holding the fifth error was never
  sent to the engine.
\<close>

theorem fifth_round_unknown_tool_counterexample:
  "fst (gemini_invoke plain_js (repeating_llm (call ''nope'')) [lookup_tool] ''go'' []
          (Some chat_callbacks) fresh_reply []) = Inr ''Tool nope error: Tool nope not found'' \<and>
   fst (snd (gemini_invoke plain_js (repeating_llm (call ''nope'')) [lookup_tool] ''go'' []
          (Some chat_callbacks) fresh_reply [])) = 5 \<and>
   length (world (snd (snd (gemini_invoke plain_js (repeating_llm (call ''nope'')) [lookup_tool] ''go'' []
          (Some chat_callbacks) fresh_reply [])))) = 5 \<and>
   messages (snd (snd (gemini_invoke plain_js (repeating_llm (call ''nope'')) [lookup_tool] ''go'' []
          (Some chat_callbacks) fresh_reply []))) \<notin>
     set (world (snd (snd (gemini_invoke plain_js (repeating_llm (call ''nope'')) [lookup_tool] ''go'' []
          (Some chat_callbacks) fresh_reply []))))"
proof -
  have tm: "toolMap [lookup_tool] ''nope'' = None"
    by (simp add: toolMap_single lookup_tool_def)
  have step: "\<And>st. iteration plain_js (repeating_llm (call ''nope'')) [lookup_tool] (Some chat_callbacks) st =
      (Next, tool_round_effect ''nope'' ''unknown'' ''Tool nope error: Tool nope not found'' None st)"
    using repeating_round_missing[where ts = "[lookup_tool]" and n = "''nope''" and b = plain_js, OF tm]
    by simp
  show ?thesis
    unfolding gemini_invoke_def repeating_run_budget[OF step]
    by (simp add: maxIterations_def eval_nat_numeral tool_round_effect_def)
qed

text \<open>
  Claim C10, amended. A tool call whose name is not in the registry does not abort the
  turn: the remaining calls of the round are executed, the round ends by going back to
  the loop head, and the working sequence gains the assistant message recording the
  calls and one result per call, the result of the unknown call being
  \<^verbatim>\<open>Tool <name> error: Tool <name> not found\<close>. If fewer than five rounds have then run,
  the next round is run on that sequence; if this was the fifth round the loop ends
  and returns the content of the last tool result as the answer.
\<close>

theorem unknown_tool_is_fed_back:
  assumes "llm (messages st) (world st) = (LlmResponse r, x)"
    and "find_tool_calls b r = Inr tcs"
    and "j < length tcs"
    and "toolMap ts (name (tcs ! j)) = None"
  shows "\<exists>st' results.
           iteration b llm ts cbs st = (Next, st') \<and>
           messages st' = messages st @ AIMessage (extract_content b (resp_content r)) (Some tcs) # results \<and>
           length results = length tcs \<and>
           results ! j =
             AIMessage (''Tool '' @ name (tcs ! j) @ '' error: Tool '' @ name (tcs ! j) @ '' not found'') None \<and>
           (\<forall>i. i < maxIterations \<longrightarrow> run_loop b llm ts cbs i st = run_loop b llm ts cbs (Suc i) st') \<and>
           (\<forall>i. Suc i < maxIterations \<longrightarrow>
              run_loop b llm ts cbs i st =
                (case iteration b llm ts cbs st' of
                   (Next, st'') \<Rightarrow> run_loop b llm ts cbs (Suc (Suc i)) st''
                 | (Return out, st'') \<Rightarrow> (Inr out, Suc (Suc i), st'')
                 | (Raise err, st'') \<Rightarrow> (Inl err, Suc (Suc i), st''))) \<and>
           (\<forall>i. Suc i = maxIterations \<longrightarrow>
              run_loop b llm ts cbs i st =
                (Inr (message_content (last results)), maxIterations,
                 stream_text cbs (message_content (last results)) st'))"
proof -
  have "fst (execute_tool b ts cbs (tcs ! j) (execute_tools b ts cbs (take j tcs) ([], st\<lparr> world := x \<rparr>))) =
          fst (execute_tools b ts cbs (take j tcs) ([], st\<lparr> world := x \<rparr>)) @
            [AIMessage (''Tool '' @ name (tcs ! j) @ '' error: Tool '' @ name (tcs ! j) @ '' not found'') None]"
    by (rule fst_execute_tool_missing[OF assms(4)])
  from tool_round_continues[where llm = llm and st = st, OF assms(1,2,3) this] show ?thesis .
qed

theorem unknown_tool_is_fed_back_witness:
  "(\<exists>st' results.
      iteration plain_js (scripted_llm [call ''nope'', answer ''sorry'']) [lookup_tool] (Some chat_callbacks)
        \<lparr> messages = [HumanMessage ''go''], stream = fresh_reply, world = [] \<rparr> = (Next, st') \<and>
      messages st' =
        [HumanMessage ''go'', AIMessage [] (Some [\<lparr> name = ''nope'', args = JObj [] \<rparr>])] @ results \<and>
      length results = 1 \<and>
      results ! 0 = AIMessage ''Tool nope error: Tool nope not found'' None \<and>
      run_loop plain_js (scripted_llm [call ''nope'', answer ''sorry'']) [lookup_tool] (Some chat_callbacks) 0
        \<lparr> messages = [HumanMessage ''go''], stream = fresh_reply, world = [] \<rparr> =
      run_loop plain_js (scripted_llm [call ''nope'', answer ''sorry'']) [lookup_tool] (Some chat_callbacks) (Suc 0)
        st')"
proof -
  let ?llm = "scripted_llm [call ''nope'', answer ''sorry'']"
  let ?st = "\<lparr> messages = [HumanMessage ''go''], stream = fresh_reply, world = [] :: base_message list list \<rparr>"
  let ?r = "\<lparr> resp_content = JStr [], tool_calls = Some [\<lparr> name = ''nope'', args = JObj [] \<rparr>],
              invalid_tool_calls = None \<rparr>"
  let ?tcs = "[\<lparr> name = ''nope'', args = JObj [] \<rparr>]"
  have l: "?llm (messages ?st) (world ?st) = (LlmResponse ?r, [[HumanMessage ''go'']])"
    by (simp add: scripted_llm_def call_def)
  have ftc: "find_tool_calls plain_js ?r = Inr ?tcs" by (rule find_tool_calls_call)
  have j: "0 < length ?tcs" by simp
  have tm: "toolMap [lookup_tool] (name (?tcs ! 0)) = None"
    by (simp add: toolMap_single lookup_tool_def)
  have k: "0 < maxIterations" by (simp add: maxIterations_def)
  from unknown_tool_is_fed_back[where llm = ?llm and st = ?st and b = plain_js and ts = "[lookup_tool]"
      and cbs = "Some chat_callbacks", OF l ftc j tm]
  obtain st' results where
    "iteration plain_js ?llm [lookup_tool] (Some chat_callbacks) ?st = (Next, st')"
    "messages st' = messages ?st @ AIMessage (extract_content plain_js (resp_content ?r)) (Some ?tcs) # results"
    "length results = length ?tcs"
    "results ! 0 = AIMessage (''Tool '' @ name (?tcs ! 0) @ '' error: Tool '' @ name (?tcs ! 0) @ '' not found'') None"
    "\<forall>i. i < maxIterations \<longrightarrow>
       run_loop plain_js ?llm [lookup_tool] (Some chat_callbacks) i ?st =
       run_loop plain_js ?llm [lookup_tool] (Some chat_callbacks) (Suc i) st'"
    by auto
  then show ?thesis
    using k by (intro exI[of _ st'] exI[of _ results]) (simp add: extract_content_string)
qed




end
